theory Spec2Isabelle
  imports Main "HOL-Library.Multiset"
begin

section \<open>The hook \<open>useDataFetcher\<close> as an event-driven state machine\<close>

text \<open>
  The source is one React hook. Everything it does happens in event handlers that run
  to completion on a single-threaded event queue: calls of the functions it returns
  (\<open>refetch\<close>, \<open>cancel\<close>, \<open>sendMessage\<close>, \<open>closeWebSocket\<close>), timers set with
  \<open>setTimeout\<close>, the continuation after \<open>await axios(config)\<close>, the four WebSocket
  callbacks, and the cleanup on unmount. The model is a deterministic function \<open>step\<close>
  from an event and a state to the next state.

  The state holds the hook's \<open>useState\<close> cells, its \<open>useRef\<close> cells, the variable
  \<open>reconnectAttempts\<close> of the connection effect, and what the hook has handed to its
  external collaborators: every timer it has set, every transport call it has made,
  every abort controller and socket it has created, every frame it has sent.
  Handles are positions in these lists, so a fresh handle is fresh by construction.
\<close>

subsection \<open>Options\<close>

text \<open>
  The options that decide scheduling. \<open>url\<close>, \<open>method\<close>, \<open>body\<close>, \<open>headers\<close>,
  \<open>queryParams\<close>, \<open>baseUrl\<close>, \<open>credentials\<close> and \<open>timeout\<close> only fill the request
  passed to the transport and are left to it. Numbers are natural numbers here.
\<close>

record options =
  autoFetch :: bool
  retry :: nat
  debounce :: nat
  autoRefresh :: nat
  wsUrl :: "string option"

definition default_options :: options where
  "default_options =
     \<lparr>autoFetch = True, retry = 0, debounce = 300, autoRefresh = 0, wsUrl = None\<rparr>"

text \<open>The test \<open>!wsUrl\<close>: \<open>undefined\<close> and the empty string are both falsy.\<close>

definition ws_configured :: "options \<Rightarrow> bool" where
  "ws_configured cfg = (case wsUrl cfg of None \<Rightarrow> False | Some u \<Rightarrow> u \<noteq> [])"

definition MAX_RECONNECT_ATTEMPTS :: "options \<Rightarrow> nat" where
  "MAX_RECONNECT_ATTEMPTS cfg = retry cfg * 2"

definition retryDelay :: "nat \<Rightarrow> nat" where
  "retryDelay attempts = min (100 * 2 ^ attempts) 5000"

subsection \<open>External collaborators\<close>

text \<open>\<open>JSON.stringify\<close> and \<open>JSON.parse\<close>; \<open>parse\<close> is \<open>None\<close> where the source throws.\<close>

record ('r, 'm) json =
  stringify :: "'m \<Rightarrow> string"
  parse :: "string \<Rightarrow> 'r option"

datatype wsStateT = Connecting | Open | Closed | Error

datatype readyState = CONNECTING | OPEN | CLOSING | CLOSED

text \<open>
  How a transport call settles when its signal was not aborted: with a payload, or with
  an error carrying \<open>err.response?.data?.message\<close> and \<open>err.message\<close>.
\<close>

datatype 'r response = Success 'r | Failure "string option" "string option"

text \<open>
  \<open>err.response?.data?.message || err.message || "Something went wrong"\<close>: a missing
  or empty string is falsy.
\<close>

definition error_message :: "string option \<Rightarrow> string option \<Rightarrow> string" where
  "error_message srv msg =
     (case srv of
        Some t \<Rightarrow> if t \<noteq> [] then t
                  else (case msg of Some u \<Rightarrow> if u \<noteq> [] then u else ''Something went wrong''
                                  | None \<Rightarrow> ''Something went wrong'')
      | None \<Rightarrow> (case msg of Some u \<Rightarrow> if u \<noteq> [] then u else ''Something went wrong''
                           | None \<Rightarrow> ''Something went wrong''))"

text \<open>
  What a timer runs. \<open>Attempt a rid c\<close> is the callback that \<open>fetchData(a)\<close> passes to
  \<open>setTimeout\<close>, with \<open>currentRequestId = rid\<close>; \<open>Retry a c\<close> is
  \<open>() => fetchData(a)\<close> set in the \<open>catch\<close> branch; \<open>Reconnect\<close> is
  \<open>connectWebSocket\<close>. The flag \<open>c\<close> is the value of \<open>isFirst\<close> that the enclosing
  \<open>fetchData\<close> closure captured (see \<open>fetchDataRef\<close> below).
\<close>

datatype action = Attempt nat nat bool | Retry nat bool | Reconnect

datatype status = Pending | Fired | Cleared

datatype timer = Timer (delay: nat) (action: action) (status: status)

text \<open>
  A transport call \<open>axios(config)\<close>: the \<open>attempts\<close> and \<open>currentRequestId\<close> of the
  callback that made it, that callback's closure flag, its abort signal, and whether it
  has settled.
\<close>

datatype call =
  Call (call_attempts: nat) (call_requestId: nat) (call_closure: bool) (call_signal: nat)
    (call_settled: bool)

subsection \<open>State\<close>

record ('r, 'm) state =
  data :: "'r option"
  loading :: bool
  error :: "string option"
  wsData :: "'r option"
  wsState :: wsStateT
  wsMessagesQueue :: "'m list"
  queueId :: nat
  renderedWsState :: wsStateT
  renderedQueueId :: nat
  isFirst :: bool
  wsRef :: "nat option"
  abortControllerRef :: "nat option"
  timeoutRef :: "nat option"
  isMounted :: bool
  latestRequestIdRef :: nat
  fetchDataRef :: bool
  reconnectAttempts :: nat
  timers :: "timer list"
  calls :: "call list"
  controllers :: "bool list"
  sockets :: "readyState list"
  sent :: "(nat \<times> string) list"

text \<open>
  \<open>fetchDataRef\<close> stands for the closure stored in \<open>fetchDataRef.current\<close>, through
  which \<open>refetch\<close>, the auto-fetch and the auto-refresh call \<open>fetchData\<close>. The source
  builds \<open>fetchData\<close> with \<open>useCallback\<close> and the dependency list \<open>[url, method, body,
  headers, queryParams, retry, debounce, baseUrl, credentials, timeout]\<close>, and an effect
  on \<open>[fetchData]\<close> stores it in the ref. The body of \<open>fetchData\<close> reads the state
  variable \<open>isFirst\<close>, which is not in the list: a render in which the listed values
  are unchanged returns the closure of an earlier render, with the \<open>isFirst\<close> of that
  render. Closures of \<open>fetchData\<close> differ only in what they captured; with the options
  fixed, the one captured value that can differ is \<open>isFirst\<close>, so the field holds that
  value. The retry \<open>() => fetchData(attempts + 1)\<close> calls the closure it was created in,
  so timers carry the flag of their closure.

  The state cells hold the last value handed to their setter; React shows it to the
  component at the next render. \<open>renderedWsState\<close> is the connection state of the last
  render, the one the hook has returned to its owner. An array is compared by identity,
  so \<open>queueId\<close> counts the arrays handed to \<open>setWsMessagesQueue\<close> and
  \<open>renderedQueueId\<close> is the count at the last render. \<open>controllers ! c\<close> tells
  whether abort controller \<open>c\<close> has been aborted; \<open>sockets ! k\<close> is the \<open>readyState\<close> of
  socket \<open>k\<close>; a timer handle is never falsy.
\<close>

definition init :: "('r, 'm) state" where
  "init = \<lparr>data = None, loading = False, error = None, wsData = None,
            wsState = Connecting, wsMessagesQueue = [], queueId = 0,
            renderedWsState = Connecting, renderedQueueId = 0, isFirst = True,
            wsRef = None, abortControllerRef = None, timeoutRef = None,
            isMounted = True, latestRequestIdRef = 0, fetchDataRef = True,
            reconnectAttempts = 0, timers = [], calls = [], controllers = [],
            sockets = [], sent = []\<rparr>"

subsection \<open>Timers, abort controllers, sockets\<close>

definition setTimeout :: "action \<Rightarrow> nat \<Rightarrow> ('r, 'm) state \<Rightarrow> ('r, 'm) state" where
  "setTimeout f ms s = s\<lparr>timers := timers s @ [Timer ms f Pending]\<rparr>"

definition pending :: "nat \<Rightarrow> ('r, 'm) state \<Rightarrow> bool" where
  "pending t s = (t < length (timers s) \<and> status (timers s ! t) = Pending)"

definition mark :: "status \<Rightarrow> timer \<Rightarrow> timer" where
  "mark st t = Timer (delay t) (action t) st"

definition clearTimeout :: "nat \<Rightarrow> ('r, 'm) state \<Rightarrow> ('r, 'm) state" where
  "clearTimeout t s =
     (if pending t s then s\<lparr>timers := (timers s)[t := mark Cleared (timers s ! t)]\<rparr> else s)"

text \<open>\<open>abortControllerRef.current?.abort()\<close>\<close>

definition abort :: "('r, 'm) state \<Rightarrow> ('r, 'm) state" where
  "abort s =
     (case abortControllerRef s of
        None \<Rightarrow> s
      | Some c \<Rightarrow> s\<lparr>controllers := (controllers s)[c := True]\<rparr>)"

definition aborted :: "nat \<Rightarrow> ('r, 'm) state \<Rightarrow> bool" where
  "aborted c s = (c < length (controllers s) \<and> controllers s ! c)"

text \<open>\<open>WebSocket.close()\<close>: starts the closing handshake unless already closing or closed.\<close>

definition socket_close :: "nat \<Rightarrow> ('r, 'm) state \<Rightarrow> ('r, 'm) state" where
  "socket_close k s =
     (if k < length (sockets s) \<and> (sockets s ! k = CONNECTING \<or> sockets s ! k = OPEN)
      then s\<lparr>sockets := (sockets s)[k := CLOSING]\<rparr> else s)"

text \<open>\<open>wsRef.current && wsRef.current.readyState === WebSocket.OPEN\<close>\<close>

definition handle_open :: "('r, 'm) state \<Rightarrow> bool" where
  "handle_open s =
     (case wsRef s of
        None \<Rightarrow> False
      | Some k \<Rightarrow> k < length (sockets s) \<and> sockets s ! k = OPEN)"

subsection \<open>The request controller\<close>

text \<open>
  \<open>fetchData(attempts)\<close> of the closure that captured \<open>isFirst = c\<close>, called when
  \<open>Date.now()\<close> reads \<open>now\<close>.
\<close>

definition fetchData ::
  "options \<Rightarrow> bool \<Rightarrow> nat \<Rightarrow> nat \<Rightarrow> ('r, 'm) state \<Rightarrow> ('r, 'm) state" where
  "fetchData cfg c attempts now s =
     (let s1 = (case timeoutRef s of None \<Rightarrow> s | Some t \<Rightarrow> clearTimeout t s);
          requestId = now;
          s2 = setTimeout (Attempt attempts requestId c) (if \<not> c then debounce cfg else 0) s1
      in s2\<lparr>timeoutRef := Some (length (timers s1)),
              latestRequestIdRef := requestId,
              isFirst := False\<rparr>)"

text \<open>The timer callback up to \<open>await axios(config)\<close>.\<close>

definition run_attempt ::
  "nat \<Rightarrow> nat \<Rightarrow> bool \<Rightarrow> ('r, 'm) state \<Rightarrow> ('r, 'm) state" where
  "run_attempt attempts currentRequestId c s =
     (if \<not> isMounted s then s
      else
        let s1 = abort (s\<lparr>loading := True, error := None\<rparr>);
            ctl = length (controllers s1);
            s2 = s1\<lparr>controllers := controllers s1 @ [False], abortControllerRef := Some ctl\<rparr>
        in s2\<lparr>calls := calls s2 @ [Call attempts currentRequestId c ctl False]\<rparr>)"

text \<open>
  The timer callback after \<open>await axios(config)\<close>: the rest of \<open>try\<close>, the \<open>catch\<close>
  branch, and \<open>finally\<close>, which also runs after the \<open>return\<close> in \<open>catch\<close>. A call whose
  signal was aborted rejects with a cancellation, whatever the transport would have
  answered.
\<close>

definition is_current :: "call \<Rightarrow> ('r, 'm) state \<Rightarrow> bool" where
  "is_current cl s = (isMounted s \<and> call_requestId cl = latestRequestIdRef s)"

definition settle ::
  "options \<Rightarrow> call \<Rightarrow> 'r response \<Rightarrow> ('r, 'm) state \<Rightarrow> ('r, 'm) state" where
  "settle cfg cl r s =
     (let s1 =
        (if aborted (call_signal cl) s then s
         else
           case r of
             Success d \<Rightarrow> if is_current cl s then s\<lparr>data := Some d\<rparr> else s
           | Failure srv msg \<Rightarrow>
               if call_attempts cl < retry cfg
               then setTimeout (Retry (call_attempts cl + 1) (call_closure cl)) (retryDelay (call_attempts cl)) s
               else if is_current cl s then s\<lparr>error := Some (error_message srv msg)\<rparr>
               else s)
      in if is_current cl s1 then s1\<lparr>loading := False\<rparr> else s1)"

subsection \<open>The connection controller\<close>

definition connectWebSocket :: "('r, 'm) state \<Rightarrow> ('r, 'm) state" where
  "connectWebSocket s =
     (case wsRef s of
        Some k \<Rightarrow> s
      | None \<Rightarrow> s\<lparr>sockets := sockets s @ [CONNECTING], wsRef := Some (length (sockets s))\<rparr>)"

definition onopen :: "('r, 'm) state \<Rightarrow> ('r, 'm) state" where
  "onopen s = s\<lparr>reconnectAttempts := 0, wsState := Open\<rparr>"

definition onmessage :: "('r, 'm) json \<Rightarrow> string \<Rightarrow> ('r, 'm) state \<Rightarrow> ('r, 'm) state" where
  "onmessage J d s =
     (if isMounted s
      then (case parse J d of
              Some v \<Rightarrow> s\<lparr>wsData := Some v\<rparr>
            | None \<Rightarrow> s\<lparr>error := Some ''Failed to parse WebSocket message''\<rparr>)
      else s)"

definition onerror :: "('r, 'm) state \<Rightarrow> ('r, 'm) state" where
  "onerror s = s\<lparr>wsState := Error\<rparr>"

definition onclose :: "options \<Rightarrow> ('r, 'm) state \<Rightarrow> ('r, 'm) state" where
  "onclose cfg s =
     (let s1 = s\<lparr>wsRef := None, wsState := Closed\<rparr>
      in if isMounted s1 \<and> reconnectAttempts s1 < MAX_RECONNECT_ATTEMPTS cfg
         then
           let s2 = s1\<lparr>reconnectAttempts := reconnectAttempts s1 + 1\<rparr>
           in setTimeout Reconnect (1000 * min (reconnectAttempts s2) 30) s2
         else s1)"

definition sendMessage :: "('r, 'm) json \<Rightarrow> 'm \<Rightarrow> ('r, 'm) state \<Rightarrow> ('r, 'm) state" where
  "sendMessage J message s =
     (case wsRef s of
        None \<Rightarrow> s\<lparr>wsMessagesQueue := wsMessagesQueue s @ [message], queueId := queueId s + 1\<rparr>
      | Some k \<Rightarrow>
          if k < length (sockets s) \<and> sockets s ! k = OPEN
          then s\<lparr>sent := sent s @ [(k, stringify J message)]\<rparr>
          else s\<lparr>wsMessagesQueue := wsMessagesQueue s @ [message], queueId := queueId s + 1\<rparr>)"

definition closeWebSocket :: "('r, 'm) state \<Rightarrow> ('r, 'm) state" where
  "closeWebSocket s =
     (case wsRef s of
        None \<Rightarrow> s
      | Some k \<Rightarrow> (socket_close k s)\<lparr>wsRef := None, wsState := Closed\<rparr>)"

text \<open>
  The effect with dependencies \<open>[wsState, wsMessagesQueue]\<close>, as it runs in a render
  whose \<open>wsState\<close> and \<open>wsMessagesQueue\<close> are the cells of \<open>s\<close>.
\<close>

definition flush :: "('r, 'm) json \<Rightarrow> ('r, 'm) state \<Rightarrow> ('r, 'm) state" where
  "flush J s =
     (case wsRef s of
        None \<Rightarrow> s
      | Some k \<Rightarrow>
          if wsState s = Open \<and> k < length (sockets s) \<and> sockets s ! k = OPEN
             \<and> wsMessagesQueue s \<noteq> []
          then s\<lparr>sent := sent s @ map (\<lambda>message. (k, stringify J message)) (wsMessagesQueue s),
                  wsMessagesQueue := [], queueId := queueId s + 1\<rparr>
          else s)"

text \<open>
  A render and the effects that follow it. Handlers only hand values to the setters;
  React renders the component later, while it is mounted, and then runs the effect above
  if \<open>wsState\<close> or the queue array is not the one of the previous render. Between a
  handler and the next render other handlers may run.
\<close>

definition render :: "('r, 'm) json \<Rightarrow> ('r, 'm) state \<Rightarrow> ('r, 'm) state" where
  "render J s =
     (if isMounted s
      then
        let s1 = s\<lparr>renderedWsState := wsState s, renderedQueueId := queueId s\<rparr>
        in if wsState s \<noteq> renderedWsState s \<or> queueId s \<noteq> renderedQueueId s
           then flush J s1 else s1
      else s)"

subsection \<open>Mounting, unmounting, events\<close>

text \<open>
  The effects of the first render, in source order, when \<open>Date.now()\<close> reads \<open>now\<close>.
  The model follows one mount of the component until its unmount.
\<close>

definition mount :: "options \<Rightarrow> nat \<Rightarrow> ('r, 'm) state" where
  "mount cfg now =
     (let s1 = init\<lparr>isMounted := True\<rparr>;
          s2 = (if autoFetch cfg \<and> \<not> ws_configured cfg
                then fetchData cfg (fetchDataRef s1) 0 now s1 else s1)
      in if ws_configured cfg then connectWebSocket s2 else s2)"

text \<open>The cleanup of the first effect, then the cleanup of the connection effect.\<close>

definition unmount :: "options \<Rightarrow> ('r, 'm) state \<Rightarrow> ('r, 'm) state" where
  "unmount cfg s =
     (let s1 = abort (s\<lparr>isMounted := False\<rparr>);
          s2 = (case timeoutRef s1 of None \<Rightarrow> s1 | Some t \<Rightarrow> clearTimeout t s1);
          s3 = closeWebSocket s2;
          s4 = (case wsRef s3 of None \<Rightarrow> s3 | Some k \<Rightarrow> socket_close k s3)
      in if ws_configured cfg then closeWebSocket s4 else s4)"

text \<open>
  Events. \<open>Refetch\<close>, \<open>Cancel\<close>, \<open>SendMessage\<close> and \<open>CloseWebSocket\<close> are calls of
  the functions the hook returns; \<open>Tick\<close> is a tick of the auto-refresh interval;
  \<open>Fire t\<close> is timer \<open>t\<close> running its callback; \<open>Respond i r\<close> settles transport call
  \<open>i\<close> with answer \<open>r\<close>; \<open>SockOpen\<close>, \<open>SockMessage\<close>, \<open>SockError\<close> and \<open>SockClose\<close>
  are the \<open>onopen\<close>, \<open>onmessage\<close>, \<open>onerror\<close> and \<open>onclose\<close> callbacks of socket
  \<open>k\<close>; \<open>Unmount\<close> runs the cleanups. \<open>Refetch now\<close>, \<open>Tick now\<close> and
  \<open>Fire t now\<close> carry the reading of \<open>Date.now()\<close> at that moment.

  \<open>Render\<close> is a render of the component with its effects. \<open>Rerender\<close> is a render in
  which, besides, a dependency of \<open>useCallback\<close> has a new identity (an object literal
  passed as \<open>headers\<close>, \<open>body\<close> or \<open>queryParams\<close>) while the options keep their
  values: \<open>useCallback\<close> returns a new closure over that render's \<open>isFirst\<close>, and the
  effect on \<open>[fetchData]\<close> stores it in \<open>fetchDataRef.current\<close>. A render in which no
  dependency changes keeps the closure.

  An event that cannot happen (a timer that is not pending, a call already settled, a
  socket that does not exist or is in the wrong \<open>readyState\<close>) leaves the state as it
  is. The \<open>error\<close> callback may come at any time in the life of a socket and does not
  change its \<open>readyState\<close>.
\<close>

datatype ('r, 'm) event =
    Refetch nat
  | Tick nat
  | Cancel
  | Render
  | Rerender
  | Fire nat nat
  | Respond nat "'r response"
  | SendMessage 'm
  | CloseWebSocket
  | SockOpen nat
  | SockMessage nat string
  | SockError nat
  | SockClose nat
  | Unmount

definition fire :: "options \<Rightarrow> nat \<Rightarrow> nat \<Rightarrow> ('r, 'm) state \<Rightarrow> ('r, 'm) state" where
  "fire cfg t now s =
     (if pending t s
      then
        let s1 = s\<lparr>timers := (timers s)[t := mark Fired (timers s ! t)]\<rparr>
        in (case action (timers s ! t) of
              Attempt a rid c \<Rightarrow> run_attempt a rid c s1
            | Retry a c \<Rightarrow> fetchData cfg c a now s1
            | Reconnect \<Rightarrow> connectWebSocket s1)
      else s)"

definition settled_call :: "call \<Rightarrow> call" where
  "settled_call cl = Call (call_attempts cl) (call_requestId cl) (call_closure cl) (call_signal cl) True"

definition respond ::
  "options \<Rightarrow> nat \<Rightarrow> 'r response \<Rightarrow> ('r, 'm) state \<Rightarrow> ('r, 'm) state" where
  "respond cfg i r s =
     (if i < length (calls s) \<and> \<not> call_settled (calls s ! i)
      then settle cfg (calls s ! i) r (s\<lparr>calls := (calls s)[i := settled_call (calls s ! i)]\<rparr>)
      else s)"

fun step ::
  "('r, 'm) json \<Rightarrow> options \<Rightarrow> ('r, 'm) event \<Rightarrow> ('r, 'm) state \<Rightarrow> ('r, 'm) state" where
  "step J cfg (Refetch now) s = fetchData cfg (fetchDataRef s) 0 now s"
| "step J cfg (Tick now) s =
     (if autoRefresh cfg \<noteq> 0 \<and> \<not> ws_configured cfg \<and> isMounted s
      then fetchData cfg (fetchDataRef s) 0 now s else s)"
| "step J cfg Cancel s = abort s"
| "step J cfg Render s = render J s"
| "step J cfg Rerender s =
     (if isMounted s then render J (s\<lparr>fetchDataRef := isFirst s\<rparr>) else s)"
| "step J cfg (Fire t now) s = fire cfg t now s"
| "step J cfg (Respond i r) s = respond cfg i r s"
| "step J cfg (SendMessage message) s = sendMessage J message s"
| "step J cfg CloseWebSocket s = closeWebSocket s"
| "step J cfg (SockOpen k) s =
     (if k < length (sockets s) \<and> sockets s ! k = CONNECTING
      then onopen (s\<lparr>sockets := (sockets s)[k := OPEN]\<rparr>) else s)"
| "step J cfg (SockMessage k d) s =
     (if k < length (sockets s) \<and> sockets s ! k = OPEN then onmessage J d s else s)"
| "step J cfg (SockError k) s = (if k < length (sockets s) then onerror s else s)"
| "step J cfg (SockClose k) s =
     (if k < length (sockets s) \<and> sockets s ! k \<noteq> CLOSED
      then onclose cfg (s\<lparr>sockets := (sockets s)[k := CLOSED]\<rparr>) else s)"
| "step J cfg Unmount s = (if isMounted s then unmount cfg s else s)"

fun run ::
  "('r, 'm) json \<Rightarrow> options \<Rightarrow> ('r, 'm) event list \<Rightarrow> ('r, 'm) state \<Rightarrow> ('r, 'm) state" where
  "run J cfg [] s = s"
| "run J cfg (e # es) s = run J cfg es (step J cfg e s)"


subsection \<open>Scenarios and predicates used in the statements\<close>

text \<open>
  One close of the current connection followed by the reconnect timer that the close
  set, if it set one (a timer set by the close has the next handle,
  \<open>length (timers s)\<close>); \<open>closes n\<close> repeats this \<open>n\<close> times, so the connection
  never opens in between.
\<close>

definition close_then_reconnect ::
  "('r, 'm) json \<Rightarrow> options \<Rightarrow> ('r, 'm) state \<Rightarrow> ('r, 'm) state" where
  "close_then_reconnect J cfg s =
     (case wsRef s of
        None \<Rightarrow> s
      | Some k \<Rightarrow> step J cfg (Fire (length (timers s)) 0) (step J cfg (SockClose k) s))"

fun closes ::
  "('r, 'm) json \<Rightarrow> options \<Rightarrow> nat \<Rightarrow> ('r, 'm) state \<Rightarrow> ('r, 'm) state" where
  "closes J cfg 0 s = s"
| "closes J cfg (Suc n) s = closes J cfg n (close_then_reconnect J cfg s)"

text \<open>The handle refers to a socket that has not fired its close event.\<close>

definition live_handle :: "('r, 'm) state \<Rightarrow> bool" where
  "live_handle s =
     (case wsRef s of
        None \<Rightarrow> False
      | Some k \<Rightarrow> k < length (sockets s) \<and> sockets s ! k \<noteq> CLOSED)"

text \<open>
  No connection exists, none is scheduled, and the connection state, in its cell and as
  last rendered, is still the initial one.
\<close>

definition http_only :: "('r, 'm) state \<Rightarrow> bool" where
  "http_only s =
     (wsState s = Connecting \<and> renderedWsState s = Connecting \<and> wsRef s = None
      \<and> sockets s = [] \<and> list_all (\<lambda>t. action t \<noteq> Reconnect) (timers s))"

text \<open>
  Call \<open>i\<close> has not settled and its signal belongs to the controller in
  \<open>abortControllerRef\<close>: it is the call that \<open>cancel()\<close> aborts.
\<close>

definition in_flight :: "nat \<Rightarrow> ('r, 'm) state \<Rightarrow> bool" where
  "in_flight i s =
     (i < length (calls s) \<and> \<not> call_settled (calls s ! i)
      \<and> abortControllerRef s = Some (call_signal (calls s ! i))
      \<and> call_signal (calls s ! i) < length (controllers s))"

text \<open>
  A state in which the connection state is still the initial one has seen no socket
  event: there is no reconnect timer, and either no socket or only the first socket,
  which is still connecting and is the handle.
\<close>

definition no_reconnect :: "('r, 'm) state \<Rightarrow> bool" where
  "no_reconnect s = list_all (\<lambda>t. action t \<noteq> Reconnect) (timers s)"

definition first_connection :: "('r, 'm) state \<Rightarrow> bool" where
  "first_connection s =
     (no_reconnect s
      \<and> (sockets s = [] \<and> wsRef s = None \<or> sockets s = [CONNECTING] \<and> wsRef s = Some 0))"

definition still_connecting :: "('r, 'm) state \<Rightarrow> bool" where
  "still_connecting s = (if wsState s = Connecting then first_connection s else True)"

text \<open>
  \<open>same_connection s s'\<close>: going from \<open>s\<close> to \<open>s'\<close> has left the connection state, the
  handle and the sockets as they were and has set no reconnect timer.
\<close>

definition same_connection :: "('r, 'm) state \<Rightarrow> ('r, 'm) state \<Rightarrow> bool" where
  "same_connection s s' =
     (wsState s' = wsState s \<and> wsRef s' = wsRef s \<and> sockets s' = sockets s
      \<and> (no_reconnect s \<longrightarrow> no_reconnect s'))"

text \<open>
  What a step from \<open>s\<close> to \<open>s'\<close> may do to the pending queue and to the log of sent
  frames: nothing; for \<open>sendMessage\<close>, append the message to the queue or send it on
  the handle; for a render, send the whole queue on the handle, in order, and empty it.
\<close>

definition queue_kept ::
  "('r, 'm) json \<Rightarrow> ('r, 'm) event \<Rightarrow> ('r, 'm) state \<Rightarrow> ('r, 'm) state \<Rightarrow> bool" where
  "queue_kept J e s s' =
     (let unchanged = (wsMessagesQueue s' = wsMessagesQueue s \<and> sent s' = sent s);
          flushed =
            (case wsRef s of
               None \<Rightarrow> False
             | Some k \<Rightarrow>
                 wsMessagesQueue s' = []
                 \<and> sent s' = sent s @ map (\<lambda>message. (k, stringify J message)) (wsMessagesQueue s))
      in case e of
           SendMessage message \<Rightarrow>
             (wsMessagesQueue s' = wsMessagesQueue s @ [message] \<and> sent s' = sent s)
             \<or> (case wsRef s of
                   None \<Rightarrow> False
                 | Some k \<Rightarrow>
                     wsMessagesQueue s' = wsMessagesQueue s
                     \<and> sent s' = sent s @ [(k, stringify J message)])
         | Render \<Rightarrow> unchanged \<or> flushed
         | Rerender \<Rightarrow> unchanged \<or> flushed
         | _ \<Rightarrow> unchanged)"

text \<open>The messages passed to \<open>sendMessage\<close> in a sequence of events, in order.\<close>

fun passed :: "('r, 'm) event list \<Rightarrow> 'm list" where
  "passed [] = []"
| "passed (SendMessage message # es) = message # passed es"
| "passed (e # es) = passed es"

text \<open>
  Concrete collaborators and options for the runs below: payloads and messages are
  strings, serialised as they are, and the one payload that does not parse is \<open>{\<close>.
\<close>

definition text_json :: "(string, string) json" where
  "text_json = \<lparr>stringify = (\<lambda>m. m), parse = (\<lambda>d. if d = ''{'' then None else Some d)\<rparr>"

definition socket_options :: options where
  "socket_options = default_options\<lparr>retry := 3, wsUrl := Some ''wss://example.com/socket''\<rparr>"

definition retry_options :: options where
  "retry_options = default_options\<lparr>retry := 2\<rparr>"

section \<open>Properties\<close>

subsection \<open>Single steps\<close>

lemma step_Cancel: "step J cfg Cancel s = abort s"
  by simp

lemma step_Respond: "step J cfg (Respond i r) s = respond cfg i r s"
  by simp

lemma step_CloseWebSocket: "step J cfg CloseWebSocket s = closeWebSocket s"
  by simp

lemma run_append: "run J cfg (es @ es') s = run J cfg es' (run J cfg es s)"
  by (induction es arbitrary: s) simp_all

lemma step_Refetch: "step J cfg (Refetch now) s = fetchData cfg (fetchDataRef s) 0 now s"
  by simp

lemma fire_keeps_connection:
  "wsState (fire cfg t now s) = wsState s
   \<and> wsMessagesQueue (fire cfg t now s) = wsMessagesQueue s"
  by (cases "action (timers s ! t)")
     (simp_all add: fire_def run_attempt_def fetchData_def clearTimeout_def setTimeout_def
        connectWebSocket_def abort_def Let_def split: option.splits)

lemma step_Fire: "step J cfg (Fire t now) s = fire cfg t now s"
  by simp

text \<open>
  A render touches nothing of the request controller: it records what was rendered and,
  through the flush effect, may move the queue to the log of sent frames.
\<close>

lemma render_frame:
  "render J s =
     s\<lparr>wsMessagesQueue := wsMessagesQueue (render J s), queueId := queueId (render J s),
       renderedWsState := renderedWsState (render J s),
       renderedQueueId := renderedQueueId (render J s), sent := sent (render J s)\<rparr>"
  by (simp add: render_def flush_def Let_def split: option.splits)

lemmas model_defs =
  render_def flush_def fetchData_def clearTimeout_def setTimeout_def pending_def
  mark_def fire_def run_attempt_def abort_def aborted_def respond_def settle_def
  settled_call_def is_current_def retryDelay_def connectWebSocket_def onopen_def
  onmessage_def onerror_def onclose_def sendMessage_def closeWebSocket_def socket_close_def
  handle_open_def mount_def unmount_def init_def ws_configured_def
  MAX_RECONNECT_ATTEMPTS_def default_options_def error_message_def
  text_json_def socket_options_def retry_options_def Let_def

subsection \<open>While the connection state is still the initial one\<close>

lemma same_connection_refl: "same_connection s s"
  by (simp add: same_connection_def)

lemma same_connection_trans:
  "same_connection s s' \<Longrightarrow> same_connection s' s'' \<Longrightarrow> same_connection s s''"
  by (simp add: same_connection_def)

lemma same_connection_clearTimeout: "same_connection s (clearTimeout t s)"
  by (auto simp add: same_connection_def no_reconnect_def clearTimeout_def pending_def mark_def
      list_all_length nth_list_update)

lemma same_connection_abort: "same_connection s (abort s)"
  by (simp add: same_connection_def no_reconnect_def abort_def split: option.splits)

lemma same_connection_fetchData: "same_connection s (fetchData cfg c a now s)"
proof -
  let ?s1 = "case timeoutRef s of None \<Rightarrow> s | Some t \<Rightarrow> clearTimeout t s"
  have 1: "same_connection s ?s1"
    by (simp add: same_connection_refl same_connection_clearTimeout split: option.splits)
  have 2: "same_connection ?s1 (fetchData cfg c a now s)"
    by (simp add: same_connection_def no_reconnect_def fetchData_def setTimeout_def Let_def)
  from 1 2 show ?thesis by (rule same_connection_trans)
qed

lemma same_connection_run_attempt: "same_connection s (run_attempt a rid c s)"
  by (simp add: same_connection_def no_reconnect_def run_attempt_def abort_def Let_def
      split: option.splits)

lemma same_connection_settle: "same_connection s (settle cfg cl r s)"
  by (auto simp add: same_connection_def no_reconnect_def settle_def setTimeout_def Let_def
      split: response.splits)

lemma same_connection_respond: "same_connection s (respond cfg i r s)"
proof -
  let ?s1 = "s\<lparr>calls := (calls s)[i := settled_call (calls s ! i)]\<rparr>"
  have 1: "same_connection s ?s1" by (simp add: same_connection_def no_reconnect_def)
  have 2: "same_connection ?s1 (settle cfg (calls s ! i) r ?s1)" by (rule same_connection_settle)
  from 1 2 have "same_connection s (settle cfg (calls s ! i) r ?s1)"
    by (rule same_connection_trans)
  then show ?thesis by (simp add: respond_def same_connection_refl)
qed

lemma same_connection_flush: "same_connection s (flush J s)"
  by (simp add: same_connection_def no_reconnect_def flush_def split: option.splits)

lemma same_connection_render: "same_connection s (render J s)"
proof -
  let ?s1 = "s\<lparr>renderedWsState := wsState s, renderedQueueId := queueId s\<rparr>"
  have 1: "same_connection s ?s1" by (simp add: same_connection_def no_reconnect_def)
  have 2: "same_connection ?s1 (flush J ?s1)" by (rule same_connection_flush)
  from 1 2 have "same_connection s (flush J ?s1)" by (rule same_connection_trans)
  with 1 show ?thesis by (simp add: render_def Let_def same_connection_refl)
qed

lemma same_connection_fire:
  assumes "no_reconnect s"
  shows "same_connection s (fire cfg t now s)"
proof (cases "pending t s")
  case False
  then show ?thesis by (simp add: fire_def same_connection_refl)
next
  case True
  then have t: "t < length (timers s)" by (simp add: pending_def)
  let ?s1 = "s\<lparr>timers := (timers s)[t := mark Fired (timers s ! t)]\<rparr>"
  have 1: "same_connection s ?s1"
    using t
    by (auto simp add: same_connection_def no_reconnect_def mark_def list_all_length
        nth_list_update)
  have nr: "action (timers s ! t) \<noteq> Reconnect"
    using assms t by (simp add: no_reconnect_def list_all_length)
  have 2: "same_connection ?s1 (fire cfg t now s)"
    using True nr
    by (cases "action (timers s ! t)")
       (simp_all add: fire_def Let_def same_connection_run_attempt same_connection_fetchData)
  from 1 2 show ?thesis by (rule same_connection_trans)
qed

lemma still_connecting_same:
  "still_connecting s \<Longrightarrow> same_connection s s' \<Longrightarrow> still_connecting s'"
  by (auto simp add: still_connecting_def first_connection_def same_connection_def)

lemma still_connecting_closeWebSocket: "still_connecting s \<Longrightarrow> still_connecting (closeWebSocket s)"
  by (auto simp add: still_connecting_def first_connection_def closeWebSocket_def
      socket_close_def no_reconnect_def split: option.splits)

lemma still_connecting_unmount: "still_connecting s \<Longrightarrow> still_connecting (unmount cfg s)"
proof -
  assume h: "still_connecting s"
  let ?s0 = "s\<lparr>isMounted := False\<rparr>"
  let ?s1 = "abort ?s0"
  let ?s2 = "case timeoutRef ?s1 of None \<Rightarrow> ?s1 | Some t \<Rightarrow> clearTimeout t ?s1"
  let ?s3 = "closeWebSocket ?s2"
  let ?s4 = "case wsRef ?s3 of None \<Rightarrow> ?s3 | Some k \<Rightarrow> socket_close k ?s3"
  have "same_connection s ?s0" by (simp add: same_connection_def no_reconnect_def)
  moreover have "same_connection ?s0 ?s1" by (rule same_connection_abort)
  moreover have "same_connection ?s1 ?s2"
    by (simp add: same_connection_refl same_connection_clearTimeout split: option.splits)
  ultimately have "same_connection s ?s2" by (blast intro: same_connection_trans)
  with h have "still_connecting ?s2" by (rule still_connecting_same)
  then have 3: "still_connecting ?s3" by (rule still_connecting_closeWebSocket)
  have "wsRef ?s3 = None" by (simp add: closeWebSocket_def split: option.splits)
  then have "?s4 = ?s3" by simp
  with 3 have 4: "still_connecting ?s4" by simp
  then have "still_connecting (closeWebSocket ?s4)" by (rule still_connecting_closeWebSocket)
  with 4 show ?thesis by (simp add: unmount_def Let_def)
qed

lemma still_connecting_step: "still_connecting s \<Longrightarrow> still_connecting (step J cfg e s)"
proof (cases e)
  case (Fire t now)
  assume h: "still_connecting s"
  show ?thesis
  proof (cases "wsState s = Connecting")
    case True
    with h have "no_reconnect s" by (simp add: still_connecting_def first_connection_def)
    then have "same_connection s (fire cfg t now s)" by (rule same_connection_fire)
    with h show ?thesis using Fire by (simp add: still_connecting_same)
  next
    case False
    have "wsState (fire cfg t now s) = wsState s" by (simp add: fire_keeps_connection)
    with False show ?thesis using Fire by (simp add: still_connecting_def)
  qed
next
  case (SendMessage m)
  assume "still_connecting s"
  then show ?thesis using SendMessage
    by (auto simp add: sendMessage_def still_connecting_def first_connection_def no_reconnect_def
        split: option.splits)
next
  case (SockClose k)
  assume "still_connecting s"
  then show ?thesis using SockClose
    by (auto simp add: onclose_def setTimeout_def Let_def still_connecting_def)
next
  case (SockMessage k d)
  assume "still_connecting s"
  then show ?thesis using SockMessage
    by (auto simp add: onmessage_def still_connecting_def first_connection_def no_reconnect_def
        split: option.splits)
next
  case Render
  assume "still_connecting s"
  then show ?thesis using Render
    by (simp add: still_connecting_same [OF _ same_connection_render])
next
  case Rerender
  assume h: "still_connecting s"
  let ?s1 = "s\<lparr>fetchDataRef := isFirst s\<rparr>"
  have "same_connection s ?s1" by (simp add: same_connection_def no_reconnect_def)
  moreover have "same_connection ?s1 (render J ?s1)" by (rule same_connection_render)
  ultimately have "same_connection s (render J ?s1)" by (rule same_connection_trans)
  with h have "still_connecting (render J ?s1)" by (rule still_connecting_same)
  with h show ?thesis using Rerender by simp
next
  case (Refetch now)
  assume "still_connecting s"
  then show ?thesis using Refetch
    by (simp add: still_connecting_same [OF _ same_connection_fetchData])
next
  case (Tick now)
  assume "still_connecting s"
  then show ?thesis using Tick
    by (simp add: still_connecting_same [OF _ same_connection_fetchData])
next
  case Cancel
  assume "still_connecting s"
  then show ?thesis using Cancel
    by (simp add: still_connecting_same [OF _ same_connection_abort])
next
  case (Respond i r)
  assume "still_connecting s"
  then show ?thesis using Respond
    by (simp add: still_connecting_same [OF _ same_connection_respond])
next
  case CloseWebSocket
  assume "still_connecting s"
  then show ?thesis using CloseWebSocket by (simp add: still_connecting_closeWebSocket)
next
  case Unmount
  assume "still_connecting s"
  then show ?thesis using Unmount by (simp add: still_connecting_unmount)
next
  case (SockOpen k)
  assume "still_connecting s"
  then show ?thesis using SockOpen by (simp add: onopen_def still_connecting_def)
next
  case (SockError k)
  assume "still_connecting s"
  then show ?thesis using SockError by (simp add: onerror_def still_connecting_def)
qed

lemma still_connecting_run: "still_connecting s \<Longrightarrow> still_connecting (run J cfg es s)"
  by (induction es arbitrary: s) (simp_all add: still_connecting_step)

lemma still_connecting_mount: "still_connecting (mount cfg now)"
proof (cases "ws_configured cfg")
  case True
  then show ?thesis
    by (simp add: mount_def Let_def still_connecting_def first_connection_def no_reconnect_def
        connectWebSocket_def init_def)
next
  case False
  let ?s1 = "init\<lparr>isMounted := True\<rparr> :: ('a, 'b) state"
  have 1: "still_connecting ?s1"
    by (simp add: still_connecting_def first_connection_def no_reconnect_def init_def)
  have "still_connecting (fetchData cfg True 0 now ?s1)"
    using 1 same_connection_fetchData by (rule still_connecting_same)
  with 1 False show ?thesis
    by (simp add: mount_def Let_def init_def)
qed


subsection \<open>Closing the connection by hand\<close>

lemma closeWebSocket_twice: "closeWebSocket (closeWebSocket s) = closeWebSocket s"
  by (simp add: closeWebSocket_def split: option.splits)

lemma closeWebSocket_render_twice:
  "render J (closeWebSocket (render J (closeWebSocket s))) = render J (closeWebSocket s)"
proof -
  let ?c = "closeWebSocket s"
  have n: "wsRef ?c = None"
    by (simp add: closeWebSocket_def split: option.splits)
  then have r: "render J ?c =
      (if isMounted ?c then ?c\<lparr>renderedWsState := wsState ?c, renderedQueueId := queueId ?c\<rparr>
       else ?c)"
    by (simp add: render_def flush_def Let_def)
  have "wsRef (render J ?c) = None"
    using n by (simp add: r)
  then have c: "closeWebSocket (render J ?c) = render J ?c"
    by (simp add: closeWebSocket_def)
  have "render J (render J ?c) = render J ?c"
    using n by (simp add: r) (simp add: render_def flush_def Let_def)
  with c show ?thesis by simp
qed

text \<open>
  Claim C8. \<open>closeWebSocket()\<close> is idempotent. With a handle present it closes the
  socket, clears the handle and sets the connection state to closed; with no handle it
  changes nothing; two calls in a row leave the state that one call leaves. This holds
  for the function, for the step, and when a render with its effects follows each call.
\<close>

theorem closeWebSocket_idempotent:
  "closeWebSocket (closeWebSocket s) = closeWebSocket s
   \<and> step J cfg CloseWebSocket (step J cfg CloseWebSocket s) = step J cfg CloseWebSocket s
   \<and> (wsRef s = None \<longrightarrow> step J cfg CloseWebSocket s = s)
   \<and> (wsRef s = Some k \<longrightarrow>
        wsRef (step J cfg CloseWebSocket s) = None
        \<and> wsState (step J cfg CloseWebSocket s) = Closed
        \<and> sockets (step J cfg CloseWebSocket s) = sockets (socket_close k s))
   \<and> run J cfg [CloseWebSocket, Render, CloseWebSocket, Render] s =
       run J cfg [CloseWebSocket, Render] s"
  by (simp add: step_CloseWebSocket closeWebSocket_twice closeWebSocket_render_twice)
    (simp add: closeWebSocket_def)

theorem closeWebSocket_idempotent_witness:
  "wsRef (mount socket_options 0 :: (string, string) state) = Some 0
   \<and> wsState (step text_json socket_options CloseWebSocket (mount socket_options 0)) = Closed
   \<and> sockets (step text_json socket_options CloseWebSocket (mount socket_options 0)) = [CLOSING]
   \<and> step text_json socket_options CloseWebSocket
        (step text_json socket_options CloseWebSocket (mount socket_options 0))
      = step text_json socket_options CloseWebSocket (mount socket_options 0)
   \<and> wsRef (mount default_options 0 :: (string, string) state) = None
   \<and> step text_json default_options CloseWebSocket (mount default_options 0)
      = mount default_options 0"
  using closeWebSocket_idempotent [of "mount socket_options 0" text_json socket_options 0]
    closeWebSocket_idempotent [of "mount default_options 0" text_json default_options 0]
  by (simp add: model_defs)

subsection \<open>The outbound queue\<close>

lemma step_SendMessage_queued:
  "\<not> handle_open s \<Longrightarrow>
   step J cfg (SendMessage m) s =
     s\<lparr>wsMessagesQueue := wsMessagesQueue s @ [m], queueId := queueId s + 1\<rparr>"
  by (auto simp add: sendMessage_def handle_open_def split: option.splits)

lemma step_SendMessage_sent:
  "wsRef s = Some k \<Longrightarrow> handle_open s \<Longrightarrow>
   step J cfg (SendMessage m) s = s\<lparr>sent := sent s @ [(k, stringify J m)]\<rparr>"
  by (simp add: sendMessage_def handle_open_def)

lemma run_SendMessage_queued:
  "\<not> handle_open s \<Longrightarrow>
   run J cfg (map SendMessage ms) s =
     s\<lparr>wsMessagesQueue := wsMessagesQueue s @ ms, queueId := queueId s + length ms\<rparr>"
proof (induction ms arbitrary: s)
  case Nil
  then show ?case by simp
next
  case (Cons m ms)
  let ?s1 = "s\<lparr>wsMessagesQueue := wsMessagesQueue s @ [m], queueId := queueId s + 1\<rparr>"
  have "\<not> handle_open ?s1" using Cons.prems by (simp add: handle_open_def split: option.splits)
  then have "run J cfg (map SendMessage ms) ?s1 =
      ?s1\<lparr>wsMessagesQueue := wsMessagesQueue ?s1 @ ms, queueId := queueId ?s1 + length ms\<rparr>"
    by (rule Cons.IH)
  then show ?case using Cons.prems by (simp del: step.simps add: step_SendMessage_queued)
qed

lemma step_SockOpen:
  "k < length (sockets s) \<Longrightarrow> sockets s ! k = CONNECTING \<Longrightarrow>
   step J cfg (SockOpen k) s =
     s\<lparr>sockets := (sockets s)[k := OPEN], reconnectAttempts := 0, wsState := Open\<rparr>"
  by (simp add: onopen_def)

lemma render_no_flush:
  "wsRef s = None \<or> wsState s \<noteq> Open \<Longrightarrow>
   render J s =
     (if isMounted s then s\<lparr>renderedWsState := wsState s, renderedQueueId := queueId s\<rparr> else s)"
  by (auto simp add: render_def flush_def Let_def split: option.splits)

lemma render_flush:
  assumes "isMounted s" "wsState s = Open" "renderedWsState s \<noteq> Open" "wsRef s = Some k"
    "k < length (sockets s)" "sockets s ! k = OPEN"
  shows "sent (render J s) = sent s @ map (\<lambda>message. (k, stringify J message)) (wsMessagesQueue s)
    \<and> wsMessagesQueue (render J s) = []
    \<and> wsState (render J s) = Open \<and> renderedWsState (render J s) = Open"
  using assms by (simp add: render_def flush_def Let_def)

lemma render_queue_kept:
  "queue_kept J Render s (render J s) \<and> queue_kept J Rerender s (render J s)"
  by (simp add: queue_kept_def render_def flush_def Let_def split: option.splits)

lemma fire_keeps_outbound:
  "wsMessagesQueue (fire cfg t now s) = wsMessagesQueue s \<and> sent (fire cfg t now s) = sent s"
  by (cases "action (timers s ! t)")
     (simp_all add: fire_def run_attempt_def fetchData_def clearTimeout_def setTimeout_def
        connectWebSocket_def abort_def Let_def split: option.splits)

lemma fetchData_keeps_outbound:
  "wsMessagesQueue (fetchData cfg c a now s) = wsMessagesQueue s
   \<and> sent (fetchData cfg c a now s) = sent s"
  by (simp add: fetchData_def clearTimeout_def setTimeout_def Let_def split: option.splits)

lemma respond_keeps_outbound:
  "wsMessagesQueue (respond cfg i r s) = wsMessagesQueue s \<and> sent (respond cfg i r s) = sent s"
  by (auto simp add: respond_def settle_def setTimeout_def Let_def split: response.splits)

lemma closeWebSocket_keeps_outbound:
  "wsMessagesQueue (closeWebSocket s) = wsMessagesQueue s \<and> sent (closeWebSocket s) = sent s"
  by (simp add: closeWebSocket_def socket_close_def split: option.splits)

lemma socket_close_keeps_outbound:
  "wsMessagesQueue (socket_close k s) = wsMessagesQueue s \<and> sent (socket_close k s) = sent s"
  by (simp add: socket_close_def)

lemma unmount_keeps_outbound:
  "wsMessagesQueue (unmount cfg s) = wsMessagesQueue s \<and> sent (unmount cfg s) = sent s"
proof -
  let ?s1 = "abort (s\<lparr>isMounted := False\<rparr>)"
  let ?s2 = "case timeoutRef ?s1 of None \<Rightarrow> ?s1 | Some t \<Rightarrow> clearTimeout t ?s1"
  let ?s3 = "closeWebSocket ?s2"
  let ?s4 = "case wsRef ?s3 of None \<Rightarrow> ?s3 | Some k \<Rightarrow> socket_close k ?s3"
  have 1: "wsMessagesQueue ?s1 = wsMessagesQueue s \<and> sent ?s1 = sent s"
    by (simp add: abort_def split: option.splits)
  have 2: "wsMessagesQueue ?s2 = wsMessagesQueue ?s1 \<and> sent ?s2 = sent ?s1"
    by (simp add: clearTimeout_def split: option.splits)
  have 3: "wsMessagesQueue ?s3 = wsMessagesQueue ?s2 \<and> sent ?s3 = sent ?s2"
    by (rule closeWebSocket_keeps_outbound)
  have 4: "wsMessagesQueue ?s4 = wsMessagesQueue ?s3 \<and> sent ?s4 = sent ?s3"
    by (simp add: socket_close_keeps_outbound split: option.splits)
  have 5: "wsMessagesQueue (closeWebSocket ?s4) = wsMessagesQueue ?s4
      \<and> sent (closeWebSocket ?s4) = sent ?s4"
    by (rule closeWebSocket_keeps_outbound)
  have "wsMessagesQueue ?s4 = wsMessagesQueue s \<and> sent ?s4 = sent s"
    using 1 2 3 4 by simp
  with 5 show ?thesis by (simp add: unmount_def Let_def)
qed

lemma step_queue_kept: "queue_kept J e s (step J cfg e s)"
proof (cases e)
  case (SendMessage m)
  then show ?thesis
    by (simp add: queue_kept_def sendMessage_def split: option.splits)
next
  case Render
  then show ?thesis by (simp add: render_queue_kept)
next
  case Rerender
  have "queue_kept J Rerender (s\<lparr>fetchDataRef := isFirst s\<rparr>) (render J (s\<lparr>fetchDataRef := isFirst s\<rparr>))"
    by (simp add: render_queue_kept)
  then have "queue_kept J Rerender s (render J (s\<lparr>fetchDataRef := isFirst s\<rparr>))"
    by (simp add: queue_kept_def split: option.splits)
  then show ?thesis using Rerender by (simp add: queue_kept_def split: option.splits)
next
  case (SockClose k)
  then show ?thesis by (simp add: queue_kept_def onclose_def setTimeout_def Let_def)
next
  case (SockMessage k d)
  then show ?thesis by (simp add: queue_kept_def onmessage_def split: option.splits)
qed (simp_all add: queue_kept_def fetchData_keeps_outbound fire_keeps_outbound
      respond_keeps_outbound closeWebSocket_keeps_outbound unmount_keeps_outbound
      abort_def onopen_def onerror_def split: option.splits)

lemma step_conserves:
  "mset (map snd (sent (step J cfg e s)))
     + mset (map (stringify J) (wsMessagesQueue (step J cfg e s)))
   = mset (map snd (sent s)) + mset (map (stringify J) (wsMessagesQueue s))
     + mset (map (stringify J) (passed [e]))"
proof -
  have k: "queue_kept J e s (step J cfg e s)" by (rule step_queue_kept)
  show ?thesis
  proof (cases e)
    case (SendMessage m)
    with k show ?thesis
      by (auto simp del: step.simps simp add: queue_kept_def split: option.splits)
  next
    case Render
    with k show ?thesis
      by (auto simp del: step.simps simp add: queue_kept_def multiset.map_comp o_def
          split: option.splits)
  next
    case Rerender
    with k show ?thesis
      by (auto simp del: step.simps simp add: queue_kept_def multiset.map_comp o_def
          split: option.splits)
  qed (insert k, simp_all del: step.simps add: queue_kept_def)
qed

lemma passed_Cons: "mset (map f (passed (e # es))) = mset (map f (passed [e])) + mset (map f (passed es))"
  by (cases e) simp_all

lemma run_conserves:
  "mset (map snd (sent (run J cfg es s)))
     + mset (map (stringify J) (wsMessagesQueue (run J cfg es s)))
   = mset (map snd (sent s)) + mset (map (stringify J) (wsMessagesQueue s))
     + mset (map (stringify J) (passed es))"
proof (induction es arbitrary: s)
  case Nil
  show ?case by simp
next
  case (Cons e es)
  have "mset (map snd (sent (run J cfg (e # es) s)))
       + mset (map (stringify J) (wsMessagesQueue (run J cfg (e # es) s)))
     = mset (map snd (sent (step J cfg e s)))
       + mset (map (stringify J) (wsMessagesQueue (step J cfg e s)))
       + mset (map (stringify J) (passed es))"
    by (simp only: run.simps Cons.IH)
  also have "\<dots> = mset (map snd (sent s)) + mset (map (stringify J) (wsMessagesQueue s))
       + mset (map (stringify J) (passed [e])) + mset (map (stringify J) (passed es))"
    by (simp only: step_conserves)
  also have "\<dots> = mset (map snd (sent s)) + mset (map (stringify J) (wsMessagesQueue s))
       + mset (map (stringify J) (passed (e # es)))"
    by (simp only: passed_Cons [of _ e es] add.assoc)
  finally show ?case .
qed

lemma connecting_not_open:
  assumes "wsState (run J cfg es (mount cfg now)) = Connecting"
  shows "\<not> handle_open (run J cfg es (mount cfg now))"
proof -
  have "still_connecting (run J cfg es (mount cfg now))"
    using still_connecting_mount by (rule still_connecting_run)
  with assms have "first_connection (run J cfg es (mount cfg now))"
    by (simp add: still_connecting_def)
  then show ?thesis
    by (auto simp add: first_connection_def handle_open_def)
qed

text \<open>
  Claim C4, amended. \<open>sendMessage\<close> tests the handle, not the connection state that the
  hook returns. A message passed while there is no handle, or while the
  \<open>readyState\<close> of the handle is not \<open>OPEN\<close>, is appended to the pending queue and
  nothing is sent; this is so in every state in which no handler has yet set the
  connection state, after any sequence of events. A message passed while the
  \<open>readyState\<close> of the handle is \<open>OPEN\<close> is serialised and sent at once. No step drops
  a queued message: every step leaves the queue and the log of sent frames as they are,
  or is a \<open>sendMessage\<close> that appends to one of them, or is a render that sends the
  whole queue in order and empties it; so after any sequence of events the frames sent
  and the messages still queued are those of before together with the messages passed
  since, each once. That render is the first one after the state
  has become open while the owner is mounted and the handle is open: after messages
  \<open>ms\<close> passed while the handle is connecting, its open and the render that follows
  turn the log of sent frames into the old log followed by the serialised queue, each
  message once, and leave the queue empty.
\<close>

theorem queue_until_open:
  "(\<not> handle_open s \<longrightarrow>
      step J cfg (SendMessage m) s =
        s\<lparr>wsMessagesQueue := wsMessagesQueue s @ [m], queueId := queueId s + 1\<rparr>)
   \<and> (wsRef s = Some k \<and> handle_open s \<longrightarrow>
      step J cfg (SendMessage m) s = s\<lparr>sent := sent s @ [(k, stringify J m)]\<rparr>)
   \<and> (wsState (run J cfg es (mount cfg now)) = Connecting \<longrightarrow>
      \<not> handle_open (run J cfg es (mount cfg now)))
   \<and> queue_kept J e s (step J cfg e s)
   \<and> (isMounted s \<and> wsState s = Open \<and> renderedWsState s \<noteq> Open \<and> wsRef s = Some k
        \<and> k < length (sockets s) \<and> sockets s ! k = OPEN \<longrightarrow>
      sent (step J cfg Render s) =
        sent s @ map (\<lambda>message. (k, stringify J message)) (wsMessagesQueue s)
      \<and> wsMessagesQueue (step J cfg Render s) = [])
   \<and> (isMounted s \<and> renderedWsState s \<noteq> Open \<and> wsRef s = Some k \<and> k < length (sockets s)
        \<and> sockets s ! k = CONNECTING \<longrightarrow>
      wsMessagesQueue (run J cfg (map SendMessage ms) s) = wsMessagesQueue s @ ms
      \<and> sent (run J cfg (map SendMessage ms) s) = sent s
      \<and> sent (run J cfg (map SendMessage ms @ [SockOpen k, Render]) s) =
          sent s @ map (\<lambda>message. (k, stringify J message)) (wsMessagesQueue s @ ms)
      \<and> wsMessagesQueue (run J cfg (map SendMessage ms @ [SockOpen k, Render]) s) = [])
   \<and> mset (map snd (sent (run J cfg es s)))
         + mset (map (stringify J) (wsMessagesQueue (run J cfg es s)))
       = mset (map snd (sent s)) + mset (map (stringify J) (wsMessagesQueue s))
         + mset (map (stringify J) (passed es))"
proof (intro conjI impI)
  show "mset (map snd (sent (run J cfg es s)))
         + mset (map (stringify J) (wsMessagesQueue (run J cfg es s)))
       = mset (map snd (sent s)) + mset (map (stringify J) (wsMessagesQueue s))
         + mset (map (stringify J) (passed es))"
    by (rule run_conserves)
next
  assume "\<not> handle_open s"
  then show "step J cfg (SendMessage m) s =
        s\<lparr>wsMessagesQueue := wsMessagesQueue s @ [m], queueId := queueId s + 1\<rparr>"
    by (rule step_SendMessage_queued)
next
  assume "wsRef s = Some k \<and> handle_open s"
  then show "step J cfg (SendMessage m) s = s\<lparr>sent := sent s @ [(k, stringify J m)]\<rparr>"
    by (simp del: step.simps add: step_SendMessage_sent)
next
  assume "wsState (run J cfg es (mount cfg now)) = Connecting"
  then show "\<not> handle_open (run J cfg es (mount cfg now))"
    by (rule connecting_not_open)
next
  show "queue_kept J e s (step J cfg e s)" by (rule step_queue_kept)
next
  assume a: "isMounted s \<and> wsState s = Open \<and> renderedWsState s \<noteq> Open \<and> wsRef s = Some k
        \<and> k < length (sockets s) \<and> sockets s ! k = OPEN"
  then have f: "sent (render J s) =
        sent s @ map (\<lambda>message. (k, stringify J message)) (wsMessagesQueue s)
      \<and> wsMessagesQueue (render J s) = []
      \<and> wsState (render J s) = Open \<and> renderedWsState (render J s) = Open"
    by (intro render_flush) simp_all
  from f show "sent (step J cfg Render s) =
        sent s @ map (\<lambda>message. (k, stringify J message)) (wsMessagesQueue s)"
    by simp
  from f show "wsMessagesQueue (step J cfg Render s) = []" by simp
next
  assume a: "isMounted s \<and> renderedWsState s \<noteq> Open \<and> wsRef s = Some k \<and> k < length (sockets s)
        \<and> sockets s ! k = CONNECTING"
  then have n: "\<not> handle_open s" by (simp add: handle_open_def)
  let ?s1 = "s\<lparr>wsMessagesQueue := wsMessagesQueue s @ ms, queueId := queueId s + length ms\<rparr>"
  have q: "run J cfg (map SendMessage ms) s = ?s1"
    using n by (rule run_SendMessage_queued)
  show "wsMessagesQueue (run J cfg (map SendMessage ms) s) = wsMessagesQueue s @ ms"
    by (simp add: q)
  show "sent (run J cfg (map SendMessage ms) s) = sent s"
    by (simp add: q)
  let ?s2 = "?s1\<lparr>sockets := (sockets ?s1)[k := OPEN], reconnectAttempts := 0, wsState := Open\<rparr>"
  have o: "step J cfg (SockOpen k) ?s1 = ?s2"
    by (rule step_SockOpen) (simp_all add: a)
  have f: "sent (render J ?s2) =
        sent ?s2 @ map (\<lambda>message. (k, stringify J message)) (wsMessagesQueue ?s2)
      \<and> wsMessagesQueue (render J ?s2) = []
      \<and> wsState (render J ?s2) = Open \<and> renderedWsState (render J ?s2) = Open"
    by (rule render_flush) (simp_all add: a)
  have p: "step J cfg Render ?s2 = render J ?s2"
    by simp
  have r: "run J cfg (map SendMessage ms @ [SockOpen k, Render]) s = render J ?s2"
    by (simp only: run_append q run.simps o p)
  from f show "sent (run J cfg (map SendMessage ms @ [SockOpen k, Render]) s) =
          sent s @ map (\<lambda>message. (k, stringify J message)) (wsMessagesQueue s @ ms)"
    by (simp only: r) simp
  from f show "wsMessagesQueue (run J cfg (map SendMessage ms @ [SockOpen k, Render]) s) = []"
    by (simp only: r)
qed

theorem queue_until_open_witness:
  "\<not> handle_open (mount socket_options 0 :: (string, string) state)
   \<and> isMounted (mount socket_options 0 :: (string, string) state)
   \<and> renderedWsState (mount socket_options 0 :: (string, string) state) = Connecting
   \<and> wsRef (mount socket_options 0 :: (string, string) state) = Some 0
   \<and> sockets (mount socket_options 0 :: (string, string) state) = [CONNECTING]
   \<and> wsState (run text_json socket_options [Refetch 5, SendMessage ''a'', Render]
        (mount socket_options 0)) = Connecting
   \<and> wsMessagesQueue
        (run text_json socket_options [SendMessage ''a'', SendMessage ''b''] (mount socket_options 0))
      = [''a'', ''b'']
   \<and> sent
        (run text_json socket_options [SendMessage ''a'', SendMessage ''b''] (mount socket_options 0))
      = []
   \<and> sent
        (run text_json socket_options [SendMessage ''a'', SendMessage ''b'', SockOpen 0, Render]
          (mount socket_options 0))
      = [(0, ''a''), (0, ''b'')]
   \<and> wsMessagesQueue
        (run text_json socket_options [SendMessage ''a'', SendMessage ''b'', SockOpen 0, Render]
          (mount socket_options 0))
      = []
   \<and> handle_open (run text_json socket_options [SendMessage ''a'', SockOpen 0]
        (mount socket_options 0))
   \<and> wsState (run text_json socket_options [SendMessage ''a'', SockOpen 0]
        (mount socket_options 0)) = Open
   \<and> renderedWsState (run text_json socket_options [SendMessage ''a'', SockOpen 0]
        (mount socket_options 0)) = Connecting
   \<and> sent (run text_json socket_options [SendMessage ''a'', SockOpen 0, Render]
        (mount socket_options 0)) = [(0, ''a'')]
   \<and> wsMessagesQueue (run text_json socket_options [SendMessage ''a'', SockOpen 0, Render]
        (mount socket_options 0)) = []
   \<and> sent (run text_json socket_options [SendMessage ''a'', SockOpen 0, SendMessage ''c'']
        (mount socket_options 0)) = [(0, ''c'')]"
  using queue_until_open
    [of "mount socket_options 0" text_json socket_options "''b''" 0
      "[Refetch 5, SendMessage ''a'', Render]" 0 Render "[''a'', ''b'']"]
    queue_until_open
    [of "run text_json socket_options [SendMessage ''a'', SockOpen 0] (mount socket_options 0)"
      text_json socket_options "''c''" 0 "[]" 0 "SendMessage ''c''" "[]"]
  by (simp add: model_defs)

text \<open>
  Two runs in which a message is passed to \<open>sendMessage\<close> while the connection state
  that the hook returns is not open, and is sent at once instead of being queued. In
  the first the socket has opened and the component has not rendered yet: the hook
  still returns connecting, and the new message goes out ahead of the two queued ones.
  In the second an error event has set the state to error while the socket is open.
\<close>

theorem sent_while_not_open_counterexample:
  "renderedWsState (run text_json socket_options
        [SendMessage ''a'', SendMessage ''b'', Render, SockOpen 0] (mount socket_options 0))
      = Connecting
   \<and> wsMessagesQueue (run text_json socket_options
        [SendMessage ''a'', SendMessage ''b'', Render, SockOpen 0, SendMessage ''c'']
        (mount socket_options 0)) = [''a'', ''b'']
   \<and> sent (run text_json socket_options
        [SendMessage ''a'', SendMessage ''b'', Render, SockOpen 0, SendMessage ''c'']
        (mount socket_options 0)) = [(0, ''c'')]
   \<and> sent (run text_json socket_options
        [SendMessage ''a'', SendMessage ''b'', Render, SockOpen 0, SendMessage ''c'', Render]
        (mount socket_options 0)) = [(0, ''c''), (0, ''a''), (0, ''b'')]
   \<and> renderedWsState (run text_json socket_options
        [SockOpen 0, Render, SockError 0, Render] (mount socket_options 0)) = Error
   \<and> wsMessagesQueue (run text_json socket_options
        [SockOpen 0, Render, SockError 0, Render, SendMessage ''a''] (mount socket_options 0)) = []
   \<and> sent (run text_json socket_options
        [SockOpen 0, Render, SockError 0, Render, SendMessage ''a''] (mount socket_options 0))
      = [(0, ''a'')]"
  by (simp add: model_defs)

subsection \<open>Closing keeps the queue\<close>

lemma step_SockClose_keeps:
  "wsMessagesQueue (step J cfg (SockClose k) s) = wsMessagesQueue s
   \<and> sent (step J cfg (SockClose k) s) = sent s"
  by (simp add: onclose_def setTimeout_def Let_def)

lemma step_SockClose_budget:
  assumes "isMounted s" "k < length (sockets s)" "sockets s ! k \<noteq> CLOSED"
    "reconnectAttempts s < MAX_RECONNECT_ATTEMPTS cfg"
  shows "step J cfg (SockClose k) s =
     s\<lparr>sockets := (sockets s)[k := CLOSED], wsRef := None, wsState := Closed,
       reconnectAttempts := reconnectAttempts s + 1,
       timers := timers s @ [Timer (1000 * min (reconnectAttempts s + 1) 30) Reconnect Pending]\<rparr>"
  using assms by (simp add: onclose_def setTimeout_def Let_def)

lemma step_SockClose_exhausted:
  assumes "k < length (sockets s)" "sockets s ! k \<noteq> CLOSED"
    "\<not> (isMounted s \<and> reconnectAttempts s < MAX_RECONNECT_ATTEMPTS cfg)"
  shows "step J cfg (SockClose k) s =
     s\<lparr>sockets := (sockets s)[k := CLOSED], wsRef := None, wsState := Closed\<rparr>"
  using assms by (auto simp add: onclose_def setTimeout_def Let_def)

lemma step_Fire_Reconnect:
  assumes "wsRef s = None" "timers s = ts @ [Timer d Reconnect Pending]"
  shows "step J cfg (Fire (length ts) now) s =
     s\<lparr>timers := ts @ [Timer d Reconnect Fired],
       sockets := sockets s @ [CONNECTING], wsRef := Some (length (sockets s))\<rparr>"
  using assms
  by (simp add: fire_def pending_def mark_def connectWebSocket_def)

lemma step_Fire_none: "step J cfg (Fire (length (timers s)) now) s = s"
  by (simp add: fire_def pending_def)

lemma reopen_flushes:
  assumes "isMounted s" "k < length (sockets s)" "sockets s ! k \<noteq> CLOSED"
    "reconnectAttempts s < MAX_RECONNECT_ATTEMPTS cfg"
  shows "sent (run J cfg
            [SockClose k, Render, Fire (length (timers s)) now, Render,
             SockOpen (length (sockets s)), Render] s)
      = sent s @ map (\<lambda>message. (length (sockets s), stringify J message)) (wsMessagesQueue s)
    \<and> wsMessagesQueue (run J cfg
            [SockClose k, Render, Fire (length (timers s)) now, Render,
             SockOpen (length (sockets s)), Render] s) = []"
proof -
  let ?d = "1000 * min (reconnectAttempts s + 1) 30"
  let ?K = "length (sockets s)"
  let ?s1 = "s\<lparr>sockets := (sockets s)[k := CLOSED], wsRef := None, wsState := Closed,
       reconnectAttempts := reconnectAttempts s + 1,
       timers := timers s @ [Timer ?d Reconnect Pending]\<rparr>"
  let ?s2 = "?s1\<lparr>renderedWsState := Closed, renderedQueueId := queueId s\<rparr>"
  let ?s3 = "?s2\<lparr>timers := timers s @ [Timer ?d Reconnect Fired],
       sockets := sockets ?s2 @ [CONNECTING], wsRef := Some (length (sockets ?s2))\<rparr>"
  let ?s5 = "?s3\<lparr>sockets := (sockets ?s3)[?K := OPEN], reconnectAttempts := 0, wsState := Open\<rparr>"
  have 1: "step J cfg (SockClose k) s = ?s1"
    using assms by (rule step_SockClose_budget)
  have 2: "step J cfg Render ?s1 = ?s2"
    using assms(1) by (simp add: render_no_flush)
  have 3: "step J cfg (Fire (length (timers s)) now) ?s2 = ?s3"
    by (rule step_Fire_Reconnect) simp_all
  have 4: "step J cfg Render ?s3 = ?s3"
    using assms(1) by (simp add: render_no_flush)
  have 5: "step J cfg (SockOpen ?K) ?s3 = ?s5"
    by (rule step_SockOpen) (simp_all add: nth_append)
  have f: "sent (render J ?s5) =
        sent ?s5 @ map (\<lambda>message. (?K, stringify J message)) (wsMessagesQueue ?s5)
      \<and> wsMessagesQueue (render J ?s5) = []
      \<and> wsState (render J ?s5) = Open \<and> renderedWsState (render J ?s5) = Open"
    by (rule render_flush) (simp_all add: assms(1) nth_append)
  have 6: "step J cfg Render ?s5 = render J ?s5"
    by simp
  have r: "run J cfg
            [SockClose k, Render, Fire (length (timers s)) now, Render, SockOpen ?K, Render] s
      = render J ?s5"
    by (simp only: run.simps 1 2 3 4 5 6)
  from f show ?thesis by (simp only: r) simp
qed

lemma closeWebSocket_then_render:
  "wsMessagesQueue (render J (closeWebSocket s)) = wsMessagesQueue s
   \<and> sent (render J (closeWebSocket s)) = sent s
   \<and> isMounted (render J (closeWebSocket s)) = isMounted s
   \<and> reconnectAttempts (render J (closeWebSocket s)) = reconnectAttempts s
   \<and> timers (render J (closeWebSocket s)) = timers s
   \<and> sockets (render J (closeWebSocket s)) = sockets (closeWebSocket s)"
proof -
  have "wsRef (closeWebSocket s) = None"
    by (simp add: closeWebSocket_def split: option.splits)
  then have "render J (closeWebSocket s) =
     (if isMounted (closeWebSocket s)
      then (closeWebSocket s)\<lparr>renderedWsState := wsState (closeWebSocket s),
             renderedQueueId := queueId (closeWebSocket s)\<rparr>
      else closeWebSocket s)"
    by (simp add: render_no_flush)
  then show ?thesis
    by (simp add: closeWebSocket_def socket_close_def split: option.splits)
qed

text \<open>
  Claim C10. Neither \<open>closeWebSocket()\<close> nor the close event handler changes the
  pending queue, and neither sends anything, nor does the render that follows
  \<open>closeWebSocket()\<close>. Messages queued before the close are flushed, in order, to the
  next connection when a reconnect opens it: after the close event, the reconnect timer
  and the open of the new socket, each followed by a render, the log of sent frames is
  the old log followed by the serialised queue, also when \<open>closeWebSocket()\<close> came
  before the close event.
\<close>

theorem close_keeps_queue:
  "wsMessagesQueue (step J cfg CloseWebSocket s) = wsMessagesQueue s
   \<and> sent (step J cfg CloseWebSocket s) = sent s
   \<and> wsMessagesQueue (step J cfg (SockClose k) s) = wsMessagesQueue s
   \<and> sent (step J cfg (SockClose k) s) = sent s
   \<and> wsMessagesQueue (run J cfg [CloseWebSocket, Render] s) = wsMessagesQueue s
   \<and> sent (run J cfg [CloseWebSocket, Render] s) = sent s
   \<and> (isMounted s \<and> k < length (sockets s) \<and> sockets s ! k \<noteq> CLOSED
        \<and> reconnectAttempts s < MAX_RECONNECT_ATTEMPTS cfg \<longrightarrow>
      sent (run J cfg
              [SockClose k, Render, Fire (length (timers s)) now, Render,
               SockOpen (length (sockets s)), Render] s)
        = sent s @ map (\<lambda>message. (length (sockets s), stringify J message)) (wsMessagesQueue s)
      \<and> sent (run J cfg
              [CloseWebSocket, Render, SockClose k, Render, Fire (length (timers s)) now, Render,
               SockOpen (length (sockets s)), Render] s)
        = sent s @ map (\<lambda>message. (length (sockets s), stringify J message)) (wsMessagesQueue s))"
proof (intro conjI impI)
  show "wsMessagesQueue (step J cfg CloseWebSocket s) = wsMessagesQueue s"
    by (simp add: closeWebSocket_keeps_outbound)
  show "sent (step J cfg CloseWebSocket s) = sent s"
    by (simp add: closeWebSocket_keeps_outbound)
  show "wsMessagesQueue (step J cfg (SockClose k) s) = wsMessagesQueue s"
    by (simp del: step.simps add: step_SockClose_keeps)
  show "sent (step J cfg (SockClose k) s) = sent s"
    by (simp del: step.simps add: step_SockClose_keeps)
  show "wsMessagesQueue (run J cfg [CloseWebSocket, Render] s) = wsMessagesQueue s"
    by (simp add: closeWebSocket_then_render)
  show "sent (run J cfg [CloseWebSocket, Render] s) = sent s"
    by (simp add: closeWebSocket_then_render)
next
  assume a: "isMounted s \<and> k < length (sockets s) \<and> sockets s ! k \<noteq> CLOSED
        \<and> reconnectAttempts s < MAX_RECONNECT_ATTEMPTS cfg"
  then have b: "isMounted s" "k < length (sockets s)" "sockets s ! k \<noteq> CLOSED"
    "reconnectAttempts s < MAX_RECONNECT_ATTEMPTS cfg"
    by simp_all
  show "sent (run J cfg
              [SockClose k, Render, Fire (length (timers s)) now, Render,
               SockOpen (length (sockets s)), Render] s)
        = sent s @ map (\<lambda>message. (length (sockets s), stringify J message)) (wsMessagesQueue s)"
    using reopen_flushes [OF b] by (rule conjunct1)
next
  assume a: "isMounted s \<and> k < length (sockets s) \<and> sockets s ! k \<noteq> CLOSED
        \<and> reconnectAttempts s < MAX_RECONNECT_ATTEMPTS cfg"
  let ?c = "render J (closeWebSocket s)"
  have r: "wsMessagesQueue ?c = wsMessagesQueue s" "sent ?c = sent s"
    "isMounted ?c = isMounted s" "reconnectAttempts ?c = reconnectAttempts s"
    "timers ?c = timers s" "sockets ?c = sockets (closeWebSocket s)"
    using closeWebSocket_then_render [of J s] by simp_all
  have c: "isMounted ?c" "k < length (sockets ?c)" "sockets ?c ! k \<noteq> CLOSED"
    "reconnectAttempts ?c < MAX_RECONNECT_ATTEMPTS cfg"
    using a
    by (simp_all only: r)
      (auto simp add: closeWebSocket_def socket_close_def nth_list_update split: option.splits)
  have l: "length (sockets ?c) = length (sockets s)"
    by (simp only: r) (simp add: closeWebSocket_def socket_close_def split: option.splits)
  have e: "run J cfg
            [CloseWebSocket, Render, SockClose k, Render, Fire (length (timers s)) now, Render,
             SockOpen (length (sockets s)), Render] s
      = run J cfg
            [SockClose k, Render, Fire (length (timers s)) now, Render,
             SockOpen (length (sockets s)), Render] ?c"
    by simp
  have "sent (run J cfg
            [SockClose k, Render, Fire (length (timers ?c)) now, Render,
             SockOpen (length (sockets ?c)), Render] ?c)
      = sent ?c @ map (\<lambda>message. (length (sockets ?c), stringify J message)) (wsMessagesQueue ?c)"
    using reopen_flushes [OF c] by (rule conjunct1)
  then have "sent (run J cfg
            [SockClose k, Render, Fire (length (timers s)) now, Render,
             SockOpen (length (sockets s)), Render] ?c)
      = sent s @ map (\<lambda>message. (length (sockets s), stringify J message)) (wsMessagesQueue s)"
    by (simp only: r(1,2,5) l)
  then show "sent (run J cfg
              [CloseWebSocket, Render, SockClose k, Render, Fire (length (timers s)) now, Render,
               SockOpen (length (sockets s)), Render] s)
        = sent s @ map (\<lambda>message. (length (sockets s), stringify J message)) (wsMessagesQueue s)"
    by (simp only: e)
qed

theorem close_keeps_queue_witness:
  "isMounted (run text_json socket_options [SendMessage ''a'', SendMessage ''b'']
       (mount socket_options 0))
   \<and> sockets (run text_json socket_options [SendMessage ''a'', SendMessage ''b'']
       (mount socket_options 0)) = [CONNECTING]
   \<and> wsMessagesQueue (run text_json socket_options [SendMessage ''a'', SendMessage ''b'']
       (mount socket_options 0)) = [''a'', ''b'']
   \<and> reconnectAttempts (run text_json socket_options [SendMessage ''a'', SendMessage ''b'']
       (mount socket_options 0)) < MAX_RECONNECT_ATTEMPTS socket_options
   \<and> wsMessagesQueue (step text_json socket_options (SockClose 0)
        (run text_json socket_options [SendMessage ''a'', SendMessage ''b'']
          (mount socket_options 0))) = [''a'', ''b'']
   \<and> sent (run text_json socket_options [SockClose 0, Render, Fire 0 0, Render, SockOpen 1, Render]
        (run text_json socket_options [SendMessage ''a'', SendMessage ''b'']
          (mount socket_options 0))) = [(1, ''a''), (1, ''b'')]"
  using close_keeps_queue
    [of text_json socket_options
      "run text_json socket_options [SendMessage ''a'', SendMessage ''b''] (mount socket_options 0)"
      0 0]
  by (simp add: model_defs)


subsection \<open>Reconnecting after a close\<close>

lemma cycle_budget:
  assumes "isMounted s" "live_handle s" "reconnectAttempts s < MAX_RECONNECT_ATTEMPTS cfg"
  shows "isMounted (close_then_reconnect J cfg s)
    \<and> live_handle (close_then_reconnect J cfg s)
    \<and> reconnectAttempts (close_then_reconnect J cfg s) = reconnectAttempts s + 1
    \<and> timers (close_then_reconnect J cfg s) =
        timers s @ [Timer (1000 * min (reconnectAttempts s + 1) 30) Reconnect Fired]"
proof -
  from assms(2) obtain k where
    k: "wsRef s = Some k" "k < length (sockets s)" "sockets s ! k \<noteq> CLOSED"
    by (auto simp add: live_handle_def split: option.splits)
  let ?s1 = "step J cfg (SockClose k) s"
  have s1: "?s1 = s\<lparr>sockets := (sockets s)[k := CLOSED], wsRef := None, wsState := Closed,
       reconnectAttempts := reconnectAttempts s + 1,
       timers := timers s @ [Timer (1000 * min (reconnectAttempts s + 1) 30) Reconnect Pending]\<rparr>"
    using assms(1) k(2,3) assms(3) by (rule step_SockClose_budget)
  have "step J cfg (Fire (length (timers s)) 0) ?s1 =
     ?s1\<lparr>timers := timers s @ [Timer (1000 * min (reconnectAttempts s + 1) 30) Reconnect Fired],
       sockets := sockets ?s1 @ [CONNECTING], wsRef := Some (length (sockets ?s1))\<rparr>"
    by (rule step_Fire_Reconnect) (simp_all del: step.simps add: s1)
  then show ?thesis
    using k assms(1)
    by (simp del: step.simps add: close_then_reconnect_def s1 live_handle_def nth_append)
qed

lemma cycle_exhausted:
  assumes "live_handle s" "\<not> (isMounted s \<and> reconnectAttempts s < MAX_RECONNECT_ATTEMPTS cfg)"
  shows "wsRef (close_then_reconnect J cfg s) = None
    \<and> timers (close_then_reconnect J cfg s) = timers s"
proof -
  from assms(1) obtain k where
    k: "wsRef s = Some k" "k < length (sockets s)" "sockets s ! k \<noteq> CLOSED"
    by (auto simp add: live_handle_def split: option.splits)
  let ?s1 = "step J cfg (SockClose k) s"
  have s1: "?s1 = s\<lparr>sockets := (sockets s)[k := CLOSED], wsRef := None, wsState := Closed\<rparr>"
    using k(2,3) assms(2) by (rule step_SockClose_exhausted)
  have "timers ?s1 = timers s" by (simp del: step.simps add: s1)
  then have "step J cfg (Fire (length (timers s)) 0) ?s1 = ?s1"
    using step_Fire_none [of J cfg ?s1 0] by simp
  then show ?thesis using k by (simp del: step.simps add: close_then_reconnect_def s1)
qed

lemma closes_no_handle: "wsRef s = None \<Longrightarrow> closes J cfg n s = s"
  by (induction n) (simp_all add: close_then_reconnect_def)

lemma upt_first: "[a ..< a + Suc x] = a # [Suc a ..< Suc a + x]"
  by (simp add: upt_rec)

lemma closes_timers:
  assumes "isMounted s" "live_handle s"
  shows "timers (closes J cfg n s) =
     timers s @ map (\<lambda>c. Timer (1000 * min c 30) Reconnect Fired)
       [Suc (reconnectAttempts s) ..<
        Suc (reconnectAttempts s) + min n (MAX_RECONNECT_ATTEMPTS cfg - reconnectAttempts s)]"
  using assms
proof (induction n arbitrary: s)
  case 0
  then show ?case by simp
next
  case (Suc n)
  let ?s1 = "close_then_reconnect J cfg s"
  let ?f = "\<lambda>c. Timer (1000 * min c 30) Reconnect Fired"
  define c0 where "c0 = reconnectAttempts s"
  define M where "M = MAX_RECONNECT_ATTEMPTS cfg"
  show ?case
  proof (cases "c0 < M")
    case True
    have c: "isMounted ?s1" "live_handle ?s1" "reconnectAttempts ?s1 = Suc c0"
      "timers ?s1 = timers s @ [?f (Suc c0)]"
      using cycle_budget [OF Suc.prems, of cfg J] True by (simp_all add: c0_def M_def)
    have m: "min (Suc n) (M - c0) = Suc (min n (M - Suc c0))"
      using True by arith
    have "timers (closes J cfg (Suc n) s) = timers (closes J cfg n ?s1)"
      by simp
    also have "\<dots> = timers ?s1 @ map ?f [Suc (Suc c0) ..< Suc (Suc c0) + min n (M - Suc c0)]"
      using Suc.IH [OF c(1,2)] by (simp only: c(3) M_def)
    also have "\<dots> = timers s @ map ?f (Suc c0 # [Suc (Suc c0) ..< Suc (Suc c0) + min n (M - Suc c0)])"
      by (simp only: c(4) append_assoc list.map append_Cons append_Nil)
    also have "\<dots> = timers s @ map ?f [Suc c0 ..< Suc c0 + min (Suc n) (M - c0)]"
      by (simp only: m upt_first)
    finally show ?thesis by (simp only: c0_def M_def)
  next
    case False
    then have e: "wsRef ?s1 = None" "timers ?s1 = timers s"
      using cycle_exhausted [OF Suc.prems(2), of cfg J] by (simp_all add: c0_def M_def)
    have "M - c0 = 0" using False by simp
    then show ?thesis
      by (simp add: closes_no_handle [OF e(1)] e(2) c0_def M_def)
  qed
qed

lemma closes_stop:
  assumes "isMounted s" "live_handle s" "MAX_RECONNECT_ATTEMPTS cfg - reconnectAttempts s < n"
  shows "wsRef (closes J cfg n s) = None"
  using assms
proof (induction n arbitrary: s)
  case 0
  then show ?case by simp
next
  case (Suc n)
  let ?s1 = "close_then_reconnect J cfg s"
  show ?case
  proof (cases "reconnectAttempts s < MAX_RECONNECT_ATTEMPTS cfg")
    case True
    have c: "isMounted ?s1" "live_handle ?s1" "reconnectAttempts ?s1 = reconnectAttempts s + 1"
      using cycle_budget [OF Suc.prems(1,2) True, of J] by simp_all
    have "MAX_RECONNECT_ATTEMPTS cfg - reconnectAttempts ?s1 < n"
      using Suc.prems(3) True by (simp add: c(3))
    with c(1,2) have "wsRef (closes J cfg n ?s1) = None" by (rule Suc.IH)
    then show ?thesis by simp
  next
    case False
    then have "wsRef ?s1 = None"
      using cycle_exhausted [OF Suc.prems(2), of cfg J] by simp
    then show ?thesis by (simp add: closes_no_handle)
  qed
qed

lemma step_SockOpen_fields:
  assumes "wsRef s = Some k" "k < length (sockets s)" "sockets s ! k = CONNECTING"
  shows "isMounted (step J cfg (SockOpen k) s) = isMounted s
    \<and> wsRef (step J cfg (SockOpen k) s) = Some k
    \<and> sockets (step J cfg (SockOpen k) s) = (sockets s)[k := OPEN]
    \<and> reconnectAttempts (step J cfg (SockOpen k) s) = 0
    \<and> timers (step J cfg (SockOpen k) s) = timers s"
  using assms by (simp add: onopen_def)

text \<open>
  Claim C3. A successful open sets the reconnect counter to zero. From there, while the
  owner is mounted, each close of the current connection that finds the counter below
  \<open>2 * retry\<close> increments it and sets exactly one reconnect timer, with delay
  \<open>1000 * min counter 30\<close> for the incremented counter; a close that finds the counter at
  \<open>2 * retry\<close> sets none. So \<open>n\<close> closes in a row, each followed by its reconnect, set
  \<open>min n (2 * retry)\<close> timers with delays \<open>1000, 2000, \<dots>\<close> capped at \<open>30000\<close>, and
  after more than \<open>2 * retry\<close> closes no handle and no timer is left: reconnection has
  stopped. With \<open>retry = 3\<close> these are six timers, \<open>1000\<close> to \<open>6000\<close>, and the seventh
  close sets none.
\<close>

theorem reconnect_budget:
  assumes "isMounted s" "wsRef s = Some k" "k < length (sockets s)" "sockets s ! k = CONNECTING"
  shows "reconnectAttempts (step J cfg (SockOpen k) s) = 0
    \<and> timers (closes J cfg n (step J cfg (SockOpen k) s)) =
        timers s @ map (\<lambda>c. Timer (1000 * min c 30) Reconnect Fired)
          [1 ..< Suc (min n (2 * retry cfg))]
    \<and> (2 * retry cfg < n \<longrightarrow> wsRef (closes J cfg n (step J cfg (SockOpen k) s)) = None)"
proof -
  let ?s0 = "step J cfg (SockOpen k) s"
  have f: "isMounted ?s0" "wsRef ?s0 = Some k" "sockets ?s0 = (sockets s)[k := OPEN]"
    "reconnectAttempts ?s0 = 0" "timers ?s0 = timers s"
    using step_SockOpen_fields [OF assms(2-4), of J cfg] assms(1)
    by (simp_all del: step.simps)
  have l: "live_handle ?s0"
    using assms(3) by (simp del: step.simps add: live_handle_def f(2,3))
  have t: "timers (closes J cfg n ?s0) =
        timers s @ map (\<lambda>c. Timer (1000 * min c 30) Reconnect Fired)
          [1 ..< Suc (min n (2 * retry cfg))]"
    using closes_timers [OF f(1) l, of J cfg n]
    by (simp del: step.simps add: f(4,5) MAX_RECONNECT_ATTEMPTS_def mult.commute)
  have "2 * retry cfg < n \<Longrightarrow> wsRef (closes J cfg n ?s0) = None"
    using closes_stop [OF f(1) l, of cfg n J]
    by (simp del: step.simps add: f(4) MAX_RECONNECT_ATTEMPTS_def mult.commute)
  with t f(4) show ?thesis by (simp del: step.simps)
qed

theorem reconnect_budget_witness:
  "isMounted (mount socket_options 0 :: (string, string) state)
   \<and> wsRef (mount socket_options 0 :: (string, string) state) = Some 0
   \<and> sockets (mount socket_options 0 :: (string, string) state) = [CONNECTING]
   \<and> retry socket_options = 3
   \<and> timers (closes text_json socket_options 6
        (step text_json socket_options (SockOpen 0) (mount socket_options 0)))
      = [Timer 1000 Reconnect Fired, Timer 2000 Reconnect Fired, Timer 3000 Reconnect Fired,
         Timer 4000 Reconnect Fired, Timer 5000 Reconnect Fired, Timer 6000 Reconnect Fired]
   \<and> timers (closes text_json socket_options 7
        (step text_json socket_options (SockOpen 0) (mount socket_options 0)))
      = [Timer 1000 Reconnect Fired, Timer 2000 Reconnect Fired, Timer 3000 Reconnect Fired,
         Timer 4000 Reconnect Fired, Timer 5000 Reconnect Fired, Timer 6000 Reconnect Fired]
   \<and> wsRef (closes text_json socket_options 7
        (step text_json socket_options (SockOpen 0) (mount socket_options 0))) = None"
proof -
  have h: "isMounted (mount socket_options 0 :: (string, string) state)"
    "wsRef (mount socket_options 0 :: (string, string) state) = Some 0"
    "0 < length (sockets (mount socket_options 0 :: (string, string) state))"
    "sockets (mount socket_options 0 :: (string, string) state) ! 0 = CONNECTING"
    "sockets (mount socket_options 0 :: (string, string) state) = [CONNECTING]"
    "timers (mount socket_options 0 :: (string, string) state) = []"
    by (simp_all add: model_defs)
  have r: "retry socket_options = 3" by (simp add: socket_options_def)
  have u: "map (\<lambda>c. Timer (1000 * min c 30) Reconnect Fired) [Suc 0 ..< 7] =
      [Timer 1000 Reconnect Fired, Timer 2000 Reconnect Fired, Timer 3000 Reconnect Fired,
       Timer 4000 Reconnect Fired, Timer 5000 Reconnect Fired, Timer 6000 Reconnect Fired]"
    by code_simp
  show ?thesis
    using reconnect_budget [OF h(1-4), of text_json socket_options 6]
      reconnect_budget [OF h(1-4), of text_json socket_options 7]
    by (simp add: h r u)
qed


subsection \<open>HTTP mode\<close>

lemma http_only_setTimeout:
  "http_only s \<Longrightarrow> f \<noteq> Reconnect \<Longrightarrow> http_only (setTimeout f ms s)"
  by (simp add: http_only_def setTimeout_def)

lemma http_only_mark:
  "http_only s \<Longrightarrow> t < length (timers s) \<Longrightarrow>
   http_only (s\<lparr>timers := (timers s)[t := mark st (timers s ! t)]\<rparr>)"
  by (auto simp add: http_only_def mark_def list_all_length nth_list_update)

lemma http_only_clearTimeout: "http_only s \<Longrightarrow> http_only (clearTimeout t s)"
  by (simp add: clearTimeout_def http_only_mark pending_def)

lemma http_only_abort: "http_only s \<Longrightarrow> http_only (abort s)"
  by (simp add: http_only_def abort_def split: option.splits)

lemma http_only_fetchData: "http_only s \<Longrightarrow> http_only (fetchData cfg c a now s)"
proof -
  assume h: "http_only s"
  have "http_only (case timeoutRef s of None \<Rightarrow> s | Some t \<Rightarrow> clearTimeout t s)"
    using h by (simp add: http_only_clearTimeout split: option.splits)
  then have "http_only (setTimeout (Attempt a now c) (if \<not> c then debounce cfg else 0)
      (case timeoutRef s of None \<Rightarrow> s | Some t \<Rightarrow> clearTimeout t s))"
    by (rule http_only_setTimeout) simp
  then show ?thesis
    by (simp add: fetchData_def Let_def http_only_def)
qed

lemma http_only_run_attempt: "http_only s \<Longrightarrow> http_only (run_attempt a rid c s)"
  by (simp add: run_attempt_def Let_def http_only_def abort_def split: option.splits)

lemma http_only_settle: "http_only s \<Longrightarrow> http_only (settle cfg cl r s)"
  by (auto simp add: settle_def Let_def http_only_def setTimeout_def split: response.splits)

lemma http_only_respond: "http_only s \<Longrightarrow> http_only (respond cfg i r s)"
proof -
  assume h: "http_only s"
  have "http_only (s\<lparr>calls := (calls s)[i := settled_call (calls s ! i)]\<rparr>)"
    using h by (simp add: http_only_def)
  with h show ?thesis by (simp add: respond_def http_only_settle)
qed

lemma http_only_fire: "http_only s \<Longrightarrow> http_only (fire cfg t now s)"
proof (cases "pending t s")
  case False
  assume "http_only s"
  with False show ?thesis by (simp add: fire_def)
next
  case True
  assume h: "http_only s"
  from True have t: "t < length (timers s)" by (simp add: pending_def)
  let ?s1 = "s\<lparr>timers := (timers s)[t := mark Fired (timers s ! t)]\<rparr>"
  have s1: "http_only ?s1" using h t by (rule http_only_mark)
  have nr: "action (timers s ! t) \<noteq> Reconnect"
    using h t by (simp add: http_only_def list_all_length)
  show ?thesis
    using True nr s1
    by (cases "action (timers s ! t)")
       (simp_all add: fire_def Let_def http_only_run_attempt http_only_fetchData)
qed

lemma http_only_closeWebSocket: "http_only s \<Longrightarrow> closeWebSocket s = s"
  by (simp add: http_only_def closeWebSocket_def)

lemma http_only_unmount: "http_only s \<Longrightarrow> http_only (unmount cfg s)"
proof -
  assume h: "http_only s"
  let ?s1 = "abort (s\<lparr>isMounted := False\<rparr>)"
  let ?s2 = "case timeoutRef ?s1 of None \<Rightarrow> ?s1 | Some t \<Rightarrow> clearTimeout t ?s1"
  have "http_only (s\<lparr>isMounted := False\<rparr>)" using h by (simp add: http_only_def)
  then have "http_only ?s1" by (rule http_only_abort)
  then have s2: "http_only ?s2" by (simp add: http_only_clearTimeout split: option.splits)
  then have "wsRef ?s2 = None" by (simp add: http_only_def)
  with s2 show ?thesis
    by (simp add: unmount_def Let_def http_only_closeWebSocket)
qed

lemma http_only_render: "http_only s \<Longrightarrow> http_only (render J s)"
  by (simp add: http_only_def render_def flush_def Let_def)

lemma http_only_step: "http_only s \<Longrightarrow> http_only (step J cfg e s)"
proof (cases e)
  case (SendMessage m)
  assume "http_only s"
  then show ?thesis using SendMessage by (simp add: sendMessage_def http_only_def)
next
  case Render
  assume "http_only s"
  then show ?thesis using Render by (simp add: http_only_render)
next
  case Rerender
  assume "http_only s"
  then have "http_only (s\<lparr>fetchDataRef := isFirst s\<rparr>)" by (simp add: http_only_def)
  then have "http_only (render J (s\<lparr>fetchDataRef := isFirst s\<rparr>))" by (rule http_only_render)
  with \<open>http_only s\<close> show ?thesis using Rerender by simp
qed (simp_all add: http_only_fetchData http_only_abort http_only_fire http_only_respond
      http_only_closeWebSocket http_only_unmount, simp_all add: http_only_def)

lemma http_only_run: "http_only s \<Longrightarrow> http_only (run J cfg es s)"
  by (induction es arbitrary: s) (simp_all add: http_only_step)

lemma http_only_mount: "\<not> ws_configured cfg \<Longrightarrow> http_only (mount cfg now)"
proof -
  assume n: "\<not> ws_configured cfg"
  have i: "http_only (init\<lparr>isMounted := True\<rparr>)" by (simp add: http_only_def init_def)
  show ?thesis using n i by (auto simp add: mount_def Let_def intro!: http_only_fetchData)
qed

text \<open>
  Claim C9. When no connection target is configured (\<open>wsUrl\<close> undefined or empty), the
  connection state starts as connecting and is still connecting after any sequence of
  events, in its cell and as the hook returns it: the connection effect returns at once,
  so no socket is ever created and the handle stays empty, and \<open>closeWebSocket()\<close>
  changes nothing.
\<close>

theorem http_mode_stays_connecting:
  assumes "\<not> ws_configured cfg"
  shows "wsState (run J cfg es (mount cfg now)) = Connecting
    \<and> renderedWsState (run J cfg es (mount cfg now)) = Connecting
    \<and> wsRef (run J cfg es (mount cfg now)) = None
    \<and> sockets (run J cfg es (mount cfg now)) = []
    \<and> step J cfg CloseWebSocket (run J cfg es (mount cfg now)) = run J cfg es (mount cfg now)"
proof -
  have "http_only (mount cfg now :: ('r, 'm) state)"
    using assms by (rule http_only_mount)
  then have r: "http_only (run J cfg es (mount cfg now))"
    by (rule http_only_run)
  from r have "closeWebSocket (run J cfg es (mount cfg now)) = run J cfg es (mount cfg now)"
    by (rule http_only_closeWebSocket)
  with r show ?thesis by (simp add: http_only_def step_CloseWebSocket)
qed

theorem http_mode_stays_connecting_witness:
  "\<not> ws_configured default_options
   \<and> wsState (run text_json default_options
        [Fire 0 1, SockOpen 0, Respond 0 (Success ''ok''), Render, SendMessage ''a'',
         SockError 0, CloseWebSocket, Refetch 5, Rerender, SockClose 0, Unmount]
        (mount default_options 0)) = Connecting
   \<and> renderedWsState (run text_json default_options
        [Fire 0 1, SockOpen 0, Respond 0 (Success ''ok''), Render, SendMessage ''a'',
         SockError 0, CloseWebSocket, Refetch 5, Rerender, SockClose 0, Unmount]
        (mount default_options 0)) = Connecting
   \<and> data (run text_json default_options
        [Fire 0 1, SockOpen 0, Respond 0 (Success ''ok''), Render, SendMessage ''a'',
         SockError 0, CloseWebSocket, Refetch 5, Rerender, SockClose 0, Unmount]
        (mount default_options 0)) = Some ''ok''"
proof -
  have h: "\<not> ws_configured default_options"
    by (simp add: ws_configured_def default_options_def)
  have d: "data (run text_json default_options
        [Fire 0 1, SockOpen 0, Respond 0 (Success ''ok''), Render, SendMessage ''a'',
         SockError 0, CloseWebSocket, Refetch 5, Rerender, SockClose 0, Unmount]
        (mount default_options 0)) = Some ''ok''"
    by (simp add: model_defs)
  show ?thesis
    using http_mode_stays_connecting [OF h, where J = text_json and now = 0 and es =
        "[Fire 0 1, SockOpen 0, Respond 0 (Success ''ok''), Render, SendMessage ''a'',
         SockError 0, CloseWebSocket, Refetch 5, Rerender, SockClose 0, Unmount]"] h d
    by (simp del: run.simps)
qed

subsection \<open>Malformed inbound messages\<close>

lemma message_after_unmount:
  "\<not> isMounted s \<Longrightarrow> step J cfg (SockMessage k d) s = s"
  by (simp add: onmessage_def)

text \<open>
  Claim C6. For every inbound message whose payload fails to parse, the error message
  is published and nothing else changes: the connection state stays what it was (open
  if it was open), as do the last inbound value and every other part of the state, and
  the handler returns normally. The controller parses inbound messages while its owner
  is mounted; after the unmount nothing is parsed and nothing can be published
  (\<open>message_after_unmount\<close>).
\<close>

theorem malformed_message:
  assumes "isMounted s" "k < length (sockets s)" "sockets s ! k = OPEN" "parse J d = None"
  shows "step J cfg (SockMessage k d) s = s\<lparr>error := Some ''Failed to parse WebSocket message''\<rparr>"
  using assms by (simp add: onmessage_def)

theorem malformed_message_witness:
  "isMounted (run text_json socket_options [SockOpen 0] (mount socket_options 0))
   \<and> sockets (run text_json socket_options [SockOpen 0] (mount socket_options 0)) = [OPEN]
   \<and> parse text_json ''{'' = None
   \<and> error (run text_json socket_options [SockOpen 0, SockMessage 0 ''{''] (mount socket_options 0))
      = Some ''Failed to parse WebSocket message''
   \<and> wsState (run text_json socket_options [SockOpen 0, SockMessage 0 ''{''] (mount socket_options 0))
      = Open"
  using malformed_message
    [of "run text_json socket_options [SockOpen 0] (mount socket_options 0)" 0 text_json "''{''"
      socket_options]
  by (simp add: model_defs)

subsection \<open>Cancelling\<close>

lemma settle_aborted:
  "aborted (call_signal cl) s \<Longrightarrow>
   settle cfg cl r s = (if is_current cl s then s\<lparr>loading := False\<rparr> else s)"
  by (simp add: settle_def is_current_def)

text \<open>
  Claim C5, amended. \<open>cancel()\<close> aborts the signal of the in-flight call and itself
  changes none of \<open>data\<close>, \<open>loading\<close>, \<open>error\<close>. When the cancelled call then
  settles, \<open>data\<close> and \<open>error\<close> are what they were before the cancel and no retry is
  scheduled; \<open>loading\<close> is set to false if the call belongs to the latest request and
  the owner is mounted, and is unchanged otherwise: the \<open>finally\<close> block runs after
  the \<open>return\<close> of the cancellation branch. The last run of this subsection has
  \<open>loading\<close> true before the cancel and false after the cancelled call has settled.
\<close>

theorem cancel_keeps_data_and_error:
  assumes "in_flight i s"
  shows "data (step J cfg Cancel s) = data s
     \<and> loading (step J cfg Cancel s) = loading s
     \<and> error (step J cfg Cancel s) = error s
     \<and> data (run J cfg [Cancel, Respond i r] s) = data s
     \<and> error (run J cfg [Cancel, Respond i r] s) = error s
     \<and> timers (run J cfg [Cancel, Respond i r] s) = timers s
     \<and> loading (run J cfg [Cancel, Respond i r] s) =
         (if isMounted s \<and> call_requestId (calls s ! i) = latestRequestIdRef s
          then False else loading s)"
proof -
  let ?cl = "calls s ! i"
  let ?s1 = "abort s"
  have a: "?s1 = s\<lparr>controllers := (controllers s)[call_signal ?cl := True]\<rparr>"
    using assms by (simp add: abort_def in_flight_def)
  let ?s2 = "?s1\<lparr>calls := (calls ?s1)[i := settled_call (calls ?s1 ! i)]\<rparr>"
  have ab: "aborted (call_signal ?cl) ?s2"
    using assms by (simp add: a aborted_def in_flight_def)
  have r: "respond cfg i r ?s1 = settle cfg ?cl r ?s2"
    using assms by (simp add: respond_def a in_flight_def)
  have "respond cfg i r ?s1 = (if is_current ?cl ?s2 then ?s2\<lparr>loading := False\<rparr> else ?s2)"
    unfolding r using ab by (rule settle_aborted)
  then show ?thesis
    by (simp add: step_Cancel step_Respond a is_current_def)
qed

theorem cancel_keeps_data_and_error_witness:
  "in_flight 0 (run text_json default_options [Fire 0 1000] (mount default_options 1000))
   \<and> data (run text_json default_options [Fire 0 1000, Cancel, Respond 0 (Success ''ok'')]
        (mount default_options 1000)) = None
   \<and> error (run text_json default_options [Fire 0 1000, Cancel, Respond 0 (Success ''ok'')]
        (mount default_options 1000)) = None
   \<and> loading (run text_json default_options [Fire 0 1000, Cancel, Respond 0 (Success ''ok'')]
        (mount default_options 1000)) = False"
  using cancel_keeps_data_and_error
    [of 0 "run text_json default_options [Fire 0 1000] (mount default_options 1000)"
      text_json default_options "Success ''ok''"]
  by (simp add: model_defs in_flight_def)

text \<open>
  The auto-fetch is in flight, \<open>cancel()\<close> is called and the cancelled call settles:
  \<open>loading\<close> is not what it was before the cancel.
\<close>

theorem cancel_clears_loading_counterexample:
  "loading (run text_json default_options [Fire 0 1000, Cancel, Respond 0 (Success ''ok'')]
      (mount default_options 1000))
   \<noteq> loading (run text_json default_options [Fire 0 1000] (mount default_options 1000))"
  by (simp add: model_defs)


subsection \<open>Fetching, failing, retrying\<close>

lemma length_controllers_abort: "length (controllers (abort s)) = length (controllers s)"
  by (simp add: abort_def split: option.splits)

lemma fetchData_first:
  "\<exists>P. length P = length (timers s)
     \<and> fetchData cfg c a now s =
         s\<lparr>timers := P @ [Timer (if c then 0 else debounce cfg) (Attempt a now c) Pending],
           timeoutRef := Some (length P), latestRequestIdRef := now, isFirst := False\<rparr>"
proof (cases "timeoutRef s")
  case None
  then have "fetchData cfg c a now s =
         s\<lparr>timers := timers s @ [Timer (if c then 0 else debounce cfg) (Attempt a now c) Pending],
           timeoutRef := Some (length (timers s)), latestRequestIdRef := now, isFirst := False\<rparr>"
    by (simp add: fetchData_def setTimeout_def Let_def)
  then show ?thesis by blast
next
  case (Some t)
  let ?P = "timers (clearTimeout t s)"
  have "length ?P = length (timers s)" by (simp add: clearTimeout_def)
  moreover have "fetchData cfg c a now s =
         s\<lparr>timers := ?P @ [Timer (if c then 0 else debounce cfg) (Attempt a now c) Pending],
           timeoutRef := Some (length ?P), latestRequestIdRef := now, isFirst := False\<rparr>"
    using Some by (simp add: fetchData_def setTimeout_def clearTimeout_def Let_def)
  ultimately show ?thesis by blast
qed

lemma fire_Attempt:
  assumes "isMounted s" "timers s = P @ [Timer d (Attempt a rid c) Pending]"
  shows "fire cfg (length P) x s =
     s\<lparr>timers := P @ [Timer d (Attempt a rid c) Fired], loading := True, error := None,
       controllers := controllers (abort s) @ [False],
       abortControllerRef := Some (length (controllers s)),
       calls := calls s @ [Call a rid c (length (controllers s)) False]\<rparr>"
  using assms
  by (simp add: fire_def pending_def mark_def run_attempt_def abort_def Let_def
      split: option.splits)

lemma respond_Failure_retry:
  assumes "calls s = Cs @ [Call a rid c k False]" "controllers s = Ks @ [False]" "k = length Ks"
    "isMounted s" "latestRequestIdRef s = rid" "a < retry cfg"
  shows "respond cfg (length Cs) (Failure u v) s =
     s\<lparr>calls := Cs @ [Call a rid c k True],
       timers := timers s @ [Timer (retryDelay a) (Retry (a + 1) c) Pending],
       loading := False\<rparr>"
  using assms
  by (simp add: respond_def settle_def settled_call_def aborted_def is_current_def
      setTimeout_def Let_def)

lemma respond_Failure_final:
  assumes "calls s = Cs @ [Call a rid c k False]" "controllers s = Ks @ [False]" "k = length Ks"
    "isMounted s" "latestRequestIdRef s = rid" "\<not> a < retry cfg"
  shows "respond cfg (length Cs) (Failure u v) s =
     s\<lparr>calls := Cs @ [Call a rid c k True],
       error := Some (error_message u v), loading := False\<rparr>"
  using assms
  by (simp add: respond_def settle_def settled_call_def aborted_def is_current_def
      setTimeout_def Let_def)

lemma fire_Retry:
  assumes "timers s = P @ [Timer d (Retry a c) Pending]" "timeoutRef s = Some t"
    "t < length P" "status (P ! t) = Fired"
  shows "fire cfg (length P) now s =
     s\<lparr>timers := P @ [Timer d (Retry a c) Fired,
                      Timer (if c then 0 else debounce cfg) (Attempt a now c) Pending],
       timeoutRef := Some (length P + 1), latestRequestIdRef := now, isFirst := False\<rparr>"
  using assms
  by (simp add: fire_def pending_def mark_def fetchData_def clearTimeout_def setTimeout_def
      Let_def nth_append)


lemma retry_round:
  assumes "isMounted s" "timers s = P @ [Timer d (Attempt a rid c) Pending]"
    "timeoutRef s = Some (length P)" "latestRequestIdRef s = rid" "a < retry cfg"
  shows "run J cfg [Fire (length P) x, Respond (length (calls s)) (Failure u v),
                    Fire (length P + 1) now] s =
     s\<lparr>timers := P @ [Timer d (Attempt a rid c) Fired,
                      Timer (retryDelay a) (Retry (a + 1) c) Fired,
                      Timer (if c then 0 else debounce cfg) (Attempt (a + 1) now c) Pending],
       timeoutRef := Some (length P + 2), latestRequestIdRef := now, isFirst := False,
       loading := False, error := None,
       controllers := controllers (abort s) @ [False],
       abortControllerRef := Some (length (controllers s)),
       calls := calls s @ [Call a rid c (length (controllers s)) True]\<rparr>"
proof -
  let ?s2 = "s\<lparr>timers := P @ [Timer d (Attempt a rid c) Fired], loading := True, error := None,
       controllers := controllers (abort s) @ [False],
       abortControllerRef := Some (length (controllers s)),
       calls := calls s @ [Call a rid c (length (controllers s)) False]\<rparr>"
  let ?s3 = "?s2\<lparr>calls := calls s @ [Call a rid c (length (controllers s)) True],
       timers := timers ?s2 @ [Timer (retryDelay a) (Retry (a + 1) c) Pending],
       loading := False\<rparr>"
  let ?P3 = "P @ [Timer d (Attempt a rid c) Fired]"
  let ?s4 = "?s3\<lparr>timers := ?P3 @ [Timer (retryDelay a) (Retry (a + 1) c) Fired,
                      Timer (if c then 0 else debounce cfg) (Attempt (a + 1) now c) Pending],
       timeoutRef := Some (length ?P3 + 1), latestRequestIdRef := now, isFirst := False\<rparr>"
  have 2: "fire cfg (length P) x s = ?s2"
    using assms(1,2) by (rule fire_Attempt)
  have 3: "respond cfg (length (calls s)) (Failure u v) ?s2 = ?s3"
    by (rule respond_Failure_retry [where Ks = "controllers (abort s)"])
       (simp_all add: assms length_controllers_abort)
  have 4: "fire cfg (length ?P3) now ?s3 = ?s4"
    by (rule fire_Retry [where t = "length P"]) (simp_all add: assms)
  have l: "length P + 1 = length ?P3" by simp
  show ?thesis
    by (simp only: run.simps step_Fire step_Respond 2 3 l 4) simp
qed

lemma final_round:
  assumes "isMounted s" "timers s = P @ [Timer d (Attempt a rid c) Pending]"
    "latestRequestIdRef s = rid" "\<not> a < retry cfg"
  shows "run J cfg [Fire (length P) x, Respond (length (calls s)) (Failure u v)] s =
     s\<lparr>timers := P @ [Timer d (Attempt a rid c) Fired],
       loading := False, error := Some (error_message u v),
       controllers := controllers (abort s) @ [False],
       abortControllerRef := Some (length (controllers s)),
       calls := calls s @ [Call a rid c (length (controllers s)) True]\<rparr>"
proof -
  let ?s2 = "s\<lparr>timers := P @ [Timer d (Attempt a rid c) Fired], loading := True, error := None,
       controllers := controllers (abort s) @ [False],
       abortControllerRef := Some (length (controllers s)),
       calls := calls s @ [Call a rid c (length (controllers s)) False]\<rparr>"
  let ?s3 = "?s2\<lparr>calls := calls s @ [Call a rid c (length (controllers s)) True],
       error := Some (error_message u v), loading := False\<rparr>"
  have 2: "fire cfg (length P) x s = ?s2"
    using assms(1,2) by (rule fire_Attempt)
  have 3: "respond cfg (length (calls s)) (Failure u v) ?s2 = ?s3"
    by (rule respond_Failure_final [where Ks = "controllers (abort s)"])
       (simp_all add: assms length_controllers_abort)
  show ?thesis
    by (simp only: run.simps step_Fire step_Respond 2 3) simp
qed

text \<open>
  Claim C2, amended. With \<open>retry = 2\<close> and a transport that fails every call, a fetch
  started while the owner is mounted makes exactly three transport calls. After the
  first and the second failure the retry \<open>fetchData(attempts + 1)\<close> is set to run after
  \<open>retryDelay\<close>, that is after \<open>100\<close> and \<open>200\<close>; after the third failure the error is
  published. Each retry is a call of \<open>fetchData\<close> and goes through its timer like any
  other call of the same closure: with delay \<open>0\<close> if the closure captured \<open>isFirst\<close>
  as true, with delay \<open>debounce\<close> otherwise. The last run of this subsection has a
  retry that waits \<open>100\<close> and then another \<open>300\<close>.
\<close>

theorem retry_twice_then_error:
  assumes "isMounted s" "retry cfg = 2"
  shows "length (calls (run J cfg
            [Refetch n0,
             Fire (length (timers s)) x0, Respond (length (calls s)) (Failure u0 v0),
             Fire (length (timers s) + 1) n1,
             Fire (length (timers s) + 2) x1, Respond (length (calls s) + 1) (Failure u1 v1),
             Fire (length (timers s) + 3) n2,
             Fire (length (timers s) + 4) x2, Respond (length (calls s) + 2) (Failure u2 v2)] s))
          = length (calls s) + 3
    \<and> drop (length (timers s)) (timers (run J cfg
            [Refetch n0,
             Fire (length (timers s)) x0, Respond (length (calls s)) (Failure u0 v0),
             Fire (length (timers s) + 1) n1,
             Fire (length (timers s) + 2) x1, Respond (length (calls s) + 1) (Failure u1 v1),
             Fire (length (timers s) + 3) n2,
             Fire (length (timers s) + 4) x2, Respond (length (calls s) + 2) (Failure u2 v2)] s))
          = [Timer (if fetchDataRef s then 0 else debounce cfg) (Attempt 0 n0 (fetchDataRef s)) Fired,
             Timer 100 (Retry 1 (fetchDataRef s)) Fired,
             Timer (if fetchDataRef s then 0 else debounce cfg) (Attempt 1 n1 (fetchDataRef s)) Fired,
             Timer 200 (Retry 2 (fetchDataRef s)) Fired,
             Timer (if fetchDataRef s then 0 else debounce cfg) (Attempt 2 n2 (fetchDataRef s)) Fired]
    \<and> error (run J cfg
            [Refetch n0,
             Fire (length (timers s)) x0, Respond (length (calls s)) (Failure u0 v0),
             Fire (length (timers s) + 1) n1,
             Fire (length (timers s) + 2) x1, Respond (length (calls s) + 1) (Failure u1 v1),
             Fire (length (timers s) + 3) n2,
             Fire (length (timers s) + 4) x2, Respond (length (calls s) + 2) (Failure u2 v2)] s)
          = Some (error_message u2 v2)"
proof -
  let ?c = "fetchDataRef s"
  let ?d = "if ?c then 0 else debounce cfg"
  let ?T = "length (timers s)"
  let ?C = "length (calls s)"
  obtain P where P: "length P = ?T"
    and f: "fetchData cfg ?c 0 n0 s =
         s\<lparr>timers := P @ [Timer ?d (Attempt 0 n0 ?c) Pending],
           timeoutRef := Some (length P), latestRequestIdRef := n0, isFirst := False\<rparr>"
    using fetchData_first [of s cfg ?c 0 n0] by blast
  define s1 where "s1 = run J cfg [Refetch n0] s"
  have s1: "isMounted s1" "timers s1 = P @ [Timer ?d (Attempt 0 n0 ?c) Pending]"
    "timeoutRef s1 = Some (length P)" "latestRequestIdRef s1 = n0" "calls s1 = calls s"
    using assms(1) by (simp_all add: s1_def step_Refetch f)
  define P1 where "P1 = P @ [Timer ?d (Attempt 0 n0 ?c) Fired, Timer (retryDelay 0) (Retry (0 + 1) ?c) Fired]"
  define s4 where "s4 = run J cfg [Fire (length P) x0, Respond (length (calls s1)) (Failure u0 v0),
      Fire (length P + 1) n1] s1"
  have r1: "0 < retry cfg" using assms(2) by simp
  have s4: "isMounted s4" "timers s4 = P1 @ [Timer ?d (Attempt (0 + 1) n1 ?c) Pending]"
    "timeoutRef s4 = Some (length P1)" "latestRequestIdRef s4 = n1"
    "length (calls s4) = ?C + 1"
    unfolding s4_def retry_round [OF s1(1-4) r1] P1_def
    using s1(1,5) by simp_all
  define P2 where "P2 = P1 @ [Timer ?d (Attempt (0 + 1) n1 ?c) Fired, Timer (retryDelay (0 + 1)) (Retry (0 + 1 + 1) ?c) Fired]"
  define s7 where "s7 = run J cfg [Fire (length P1) x1, Respond (length (calls s4)) (Failure u1 v1),
      Fire (length P1 + 1) n2] s4"
  have r2: "0 + 1 < retry cfg" using assms(2) by simp
  have s7: "isMounted s7" "timers s7 = P2 @ [Timer ?d (Attempt (0 + 1 + 1) n2 ?c) Pending]"
    "latestRequestIdRef s7 = n2" "length (calls s7) = ?C + 2"
    unfolding s7_def retry_round [OF s4(1-4) r2] P2_def
    using s4(1,5) by simp_all
  define s9 where "s9 = run J cfg [Fire (length P2) x2, Respond (length (calls s7)) (Failure u2 v2)] s7"
  have r3: "\<not> 0 + 1 + 1 < retry cfg" using assms(2) by simp
  have s9: "timers s9 = P2 @ [Timer ?d (Attempt (0 + 1 + 1) n2 ?c) Fired]"
    "length (calls s9) = ?C + 3" "error s9 = Some (error_message u2 v2)"
    unfolding s9_def final_round [OF s7(1-3) r3]
    using s7(4) by simp_all
  have l: "length P1 = ?T + 2" "length P2 = ?T + 4"
    by (simp_all add: P1_def P2_def P)
  have t3: "?T + 2 + 1 = ?T + 3" by simp
  have "run J cfg
            [Refetch n0,
             Fire ?T x0, Respond ?C (Failure u0 v0), Fire (?T + 1) n1,
             Fire (?T + 2) x1, Respond (?C + 1) (Failure u1 v1), Fire (?T + 3) n2,
             Fire (?T + 4) x2, Respond (?C + 2) (Failure u2 v2)] s
      = run J cfg ([Refetch n0] @ [Fire ?T x0, Respond ?C (Failure u0 v0), Fire (?T + 1) n1]
          @ [Fire (?T + 2) x1, Respond (?C + 1) (Failure u1 v1), Fire (?T + 2 + 1) n2]
          @ [Fire (?T + 4) x2, Respond (?C + 2) (Failure u2 v2)]) s"
    by (simp only: append_Cons append_Nil t3)
  also have "\<dots> = s9"
  proof -
    have e4: "run J cfg [Fire ?T x0, Respond ?C (Failure u0 v0), Fire (?T + 1) n1] s1 = s4"
      by (simp only: s4_def P s1(5))
    have e7: "run J cfg [Fire (?T + 2) x1, Respond (?C + 1) (Failure u1 v1), Fire (?T + 2 + 1) n2] s4
        = s7"
      by (simp only: s7_def l(1) s4(5))
    have e9: "run J cfg [Fire (?T + 4) x2, Respond (?C + 2) (Failure u2 v2)] s7 = s9"
      by (simp only: s9_def l(2) s7(4))
    show ?thesis
      by (simp only: run_append s1_def [symmetric] e4 e7 e9)
  qed
  finally have e: "run J cfg
            [Refetch n0,
             Fire ?T x0, Respond ?C (Failure u0 v0), Fire (?T + 1) n1,
             Fire (?T + 2) x1, Respond (?C + 1) (Failure u1 v1), Fire (?T + 3) n2,
             Fire (?T + 4) x2, Respond (?C + 2) (Failure u2 v2)] s = s9" .
  have "drop ?T (timers s9) =
      [Timer ?d (Attempt 0 n0 ?c) Fired, Timer 100 (Retry 1 ?c) Fired,
       Timer ?d (Attempt 1 n1 ?c) Fired, Timer 200 (Retry 2 ?c) Fired,
       Timer ?d (Attempt 2 n2 ?c) Fired]"
    by (simp add: s9(1) P2_def P1_def P [symmetric] retryDelay_def)
  then show ?thesis
    by (simp only: e s9(2,3))
qed


theorem retry_twice_then_error_witness:
  "isMounted (mount (retry_options\<lparr>autoFetch := False\<rparr>) 0 :: (string, string) state)
   \<and> retry (retry_options\<lparr>autoFetch := False\<rparr>) = 2
   \<and> calls (run text_json (retry_options\<lparr>autoFetch := False\<rparr>)
        [Refetch 10, Fire 0 10, Respond 0 (Failure None (Some ''Network Error'')),
         Fire 1 110, Fire 2 110, Respond 1 (Failure None (Some ''Network Error'')),
         Fire 3 310, Fire 4 310, Respond 2 (Failure None (Some ''Network Error''))]
        (mount (retry_options\<lparr>autoFetch := False\<rparr>) 0))
      = [Call 0 10 True 0 True, Call 1 110 True 1 True, Call 2 310 True 2 True]
   \<and> timers (run text_json (retry_options\<lparr>autoFetch := False\<rparr>)
        [Refetch 10, Fire 0 10, Respond 0 (Failure None (Some ''Network Error'')),
         Fire 1 110, Fire 2 110, Respond 1 (Failure None (Some ''Network Error'')),
         Fire 3 310, Fire 4 310, Respond 2 (Failure None (Some ''Network Error''))]
        (mount (retry_options\<lparr>autoFetch := False\<rparr>) 0))
      = [Timer 0 (Attempt 0 10 True) Fired, Timer 100 (Retry 1 True) Fired,
         Timer 0 (Attempt 1 110 True) Fired, Timer 200 (Retry 2 True) Fired,
         Timer 0 (Attempt 2 310 True) Fired]
   \<and> error (run text_json (retry_options\<lparr>autoFetch := False\<rparr>)
        [Refetch 10, Fire 0 10, Respond 0 (Failure None (Some ''Network Error'')),
         Fire 1 110, Fire 2 110, Respond 1 (Failure None (Some ''Network Error'')),
         Fire 3 310, Fire 4 310, Respond 2 (Failure None (Some ''Network Error''))]
        (mount (retry_options\<lparr>autoFetch := False\<rparr>) 0))
      = Some ''Network Error''"
  using retry_twice_then_error
    [of "mount (retry_options\<lparr>autoFetch := False\<rparr>) 0" "retry_options\<lparr>autoFetch := False\<rparr>"
      text_json 10 10 None "Some ''Network Error''" 110 110 None "Some ''Network Error''"
      310 310 None "Some ''Network Error''"]
  by (simp add: model_defs)

text \<open>
  A fetch through a closure created after the first call: its retry is set to run after
  \<open>100\<close>, and the retried attempt is then scheduled after another \<open>300\<close>.
\<close>

theorem retry_after_rerender_waits_debounce_counterexample:
  "timers (run text_json (retry_options\<lparr>autoFetch := False\<rparr>)
        [Refetch 10, Rerender, Refetch 20, Fire 1 320,
         Respond 0 (Failure None (Some ''Network Error'')), Fire 2 420]
        (mount (retry_options\<lparr>autoFetch := False\<rparr>) 0))
      = [Timer 0 (Attempt 0 10 True) Cleared, Timer 300 (Attempt 0 20 False) Fired,
         Timer 100 (Retry 1 False) Fired, Timer 300 (Attempt 1 420 False) Pending]"
  by (simp add: model_defs)

subsection \<open>Request identifiers and the first-call flag\<close>

lemma stale_completion_discarded:
  assumes "i < length (calls s)" "call_requestId (calls s ! i) \<noteq> latestRequestIdRef s"
  shows "data (step J cfg (Respond i r) s) = data s
    \<and> error (step J cfg (Respond i r) s) = error s
    \<and> loading (step J cfg (Respond i r) s) = loading s"
  using assms
  by (simp add: step_Respond respond_def settle_def settled_call_def is_current_def
      setTimeout_def Let_def split: response.splits)

text \<open>
  Claim C1 says that only the outcome of the most recently issued attempt is ever
  published, each attempt having an identifier of its own. A stale completion is indeed
  discarded when its identifier differs from the latest one
  (\<open>stale_completion_discarded\<close>). The identifier, though, is the reading of
  \<open>Date.now()\<close> at the call of \<open>fetchData\<close>, which the source comments as unique; two
  calls in the same millisecond share it. In the run below the first attempt is issued
  at reading \<open>1000\<close> and its call is in flight when a second attempt is issued at the
  same reading; the response to the first call is then published as \<open>data\<close> although
  the second attempt, whose timer is still pending, is the most recent one. Issued at
  reading \<open>1001\<close>, the second attempt makes the same response stale and it is discarded.
\<close>

theorem same_millisecond_publishes_older_attempt:
  "calls (run text_json default_options [Fire 0 1000, Refetch 1000] (mount default_options 1000))
      = [Call 0 1000 True 0 False]
   \<and> timers (run text_json default_options [Fire 0 1000, Refetch 1000]
        (mount default_options 1000))
      = [Timer 0 (Attempt 0 1000 True) Fired, Timer 0 (Attempt 0 1000 True) Pending]
   \<and> data (run text_json default_options [Fire 0 1000, Refetch 1000, Respond 0 (Success ''old'')]
        (mount default_options 1000)) = Some ''old''
   \<and> data (run text_json default_options [Fire 0 1000, Refetch 1001, Respond 0 (Success ''old'')]
        (mount default_options 1000)) = None"
  by (simp add: model_defs)

text \<open>
  Claim C7 says that the first call of \<open>fetchData\<close> is scheduled with zero delay and
  every later one after the debounce delay. With the default options every dependency
  of \<open>useCallback\<close> is stable, so \<open>fetchDataRef.current\<close> keeps the closure of the
  first render, in which \<open>isFirst\<close> is true. In the run below the first attempt has
  completed and the state variable \<open>isFirst\<close> is false, yet a refetch is scheduled with
  delay \<open>0\<close>, not \<open>300\<close>, also when the component has rendered in between. Only
  after a render that replaces the closure is the next call scheduled with delay
  \<open>300\<close>.
\<close>

theorem second_fetch_not_debounced:
  "debounce default_options = 300
   \<and> isFirst (mount default_options 1000 :: (string, string) state) = False
   \<and> timers (run text_json default_options [Fire 0 1000, Respond 0 (Success ''ok''), Refetch 5000]
        (mount default_options 1000))
      = [Timer 0 (Attempt 0 1000 True) Fired, Timer 0 (Attempt 0 5000 True) Pending]
   \<and> timers (run text_json default_options
        [Render, Fire 0 1000, Render, Respond 0 (Success ''ok''), Render, Refetch 5000]
        (mount default_options 1000))
      = [Timer 0 (Attempt 0 1000 True) Fired, Timer 0 (Attempt 0 5000 True) Pending]
   \<and> timers (run text_json default_options
        [Fire 0 1000, Respond 0 (Success ''ok''), Rerender, Refetch 5000]
        (mount default_options 1000))
      = [Timer 0 (Attempt 0 1000 True) Fired, Timer 300 (Attempt 0 5000 False) Pending]"
  by (simp add: model_defs)


end
